theory Spec2Isabelle
  imports Complex_Main "HOL-Library.Sublist"
begin

section \<open>Data model of \<^verbatim>\<open>app.py\<close>\<close>

text \<open>
  A Python \<^verbatim>\<open>str\<close> is a sequence of Unicode code points; \<open>ustr\<close> turns an ASCII
  literal of the source into one.
\<close>

type_synonym pystr = "nat list"

definition ustr :: "string \<Rightarrow> pystr" where
  "ustr s = map of_char s"

text \<open>
  An entry of \<^verbatim>\<open>st.session_state.chat_history\<close> is a dict with the keys
  \<^verbatim>\<open>"role"\<close> and \<^verbatim>\<open>"content"\<close>, in this order.
\<close>

record message =
  role :: pystr
  content :: pystr

text \<open>An entry of \<^verbatim>\<open>st.session_state.available_voices\<close>.\<close>

record voice =
  name :: pystr
  display :: pystr

text \<open>The four keys that the script keeps in \<^verbatim>\<open>st.session_state\<close>.\<close>

record session_state =
  selected_voice :: pystr
  available_voices :: "voice list"
  chat_history :: "message list"
  system_tested :: bool

subsection \<open>The class \<^verbatim>\<open>Config\<close>\<close>

definition LLM_MODEL :: pystr where
  "LLM_MODEL = ustr ''llama3-8b-8192''"

definition MAX_TOKENS :: int where
  "MAX_TOKENS = 20"

definition TEMPERATURE :: real where
  "TEMPERATURE = 0.3"

definition MAX_HISTORY_LENGTH :: int where
  "MAX_HISTORY_LENGTH = 50"

definition LISTEN_TIMEOUT :: int where
  "LISTEN_TIMEOUT = 5"

definition DEFAULT_VOICE :: pystr where
  "DEFAULT_VOICE = ustr ''en-US-JennyNeural''"

subsection \<open>Python list slicing\<close>

text \<open>
  \<^verbatim>\<open>xs[i:]\<close>: a negative start counts from the end and is clamped at the front, a
  start beyond the end gives the empty list.
\<close>

definition slice_from :: "int \<Rightarrow> 'a list \<Rightarrow> 'a list" where
  "slice_from i xs =
     (let n = int (length xs);
          start = (if i < 0 then max (n + i) 0 else min i n)
      in drop (nat start) xs)"

subsection \<open>\<^verbatim>\<open>limit_history\<close>\<close>

definition limit_history :: "'a session_state_scheme \<Rightarrow> 'a session_state_scheme" where
  "limit_history s =
     (if int (length (chat_history s)) > MAX_HISTORY_LENGTH
      then s\<lparr>chat_history := slice_from (- MAX_HISTORY_LENGTH) (chat_history s)\<rparr>
      else s)"

subsection \<open>Collaborators\<close>

text \<open>
  The exceptions that the script names, each with its \<^verbatim>\<open>str(e)\<close>; every one of them is
  a subclass of \<^verbatim>\<open>Exception\<close>, and \<open>OtherException\<close> stands for any other subclass.
\<close>

datatype exn =
    WaitTimeoutError pystr
  | RequestError pystr
  | UnknownValueError pystr
  | NoAudioReceived pystr
  | pygame_error pystr
  | OtherException pystr

fun str :: "exn \<Rightarrow> pystr" where
  "str (WaitTimeoutError m) = m"
| "str (RequestError m) = m"
| "str (UnknownValueError m) = m"
| "str (NoAudioReceived m) = m"
| "str (pygame_error m) = m"
| "str (OtherException m) = m"

text \<open>What the script shows through \<^verbatim>\<open>st.write\<close>, \<^verbatim>\<open>st.warning\<close> and \<^verbatim>\<open>st.error\<close>.\<close>

datatype ui_msg = st_write pystr | st_warning pystr | st_error pystr

text \<open>The keyword arguments of \<^verbatim>\<open>client.chat.completions.create\<close>.\<close>

record request =
  messages :: "message list"
  model :: pystr
  max_tokens :: int
  temperature :: real

text \<open>
  The state that one run of the script works on: the session state, the regular files
  of \<^verbatim>\<open>Config.TEMP_DIR\<close> in the order of \<^verbatim>\<open>os.listdir\<close> (a path
  \<^verbatim>\<open>os.path.join(Config.TEMP_DIR, n)\<close> is represented by the entry \<open>n\<close>; the script neither
  creates nor deletes anything else there, and \<^verbatim>\<open>os.path.isfile\<close> holds of every entry
  listed), the messages shown so far, and the requests sent to the language model so far.
\<close>

record world = session_state +
  temp_dir :: "pystr list"
  shown :: "ui_msg list"
  llm_calls :: "request list"

text \<open>
  What the collaborators answer during one cycle. Each field is the outcome of the call
  of that name at its place in the source: \<open>None\<close> or \<open>Inr\<close> when it returns, \<open>Some e\<close>
  or \<open>Inl e\<close> when it raises \<open>e\<close>.
  \<^item> \<open>getcwd\<close>: \<^verbatim>\<open>os.getcwd()\<close>, read by \<^verbatim>\<open>Config.TEMP_DIR\<close>;
  \<^item> \<open>format_exc\<close>: the text of \<^verbatim>\<open>traceback.format_exc()\<close> in a handler of \<open>e\<close>;
  \<^item> \<open>Microphone\<close>: entering \<^verbatim>\<open>with sr.Microphone() as source\<close>;
  \<^item> \<open>listen\<close>: \<^verbatim>\<open>recognizer.listen(source, timeout=Config.LISTEN_TIMEOUT)\<close>, the audio given
    by its \<^verbatim>\<open>get_wav_data()\<close>;
  \<^item> \<open>uuid4_audio\<close>, \<open>uuid4_tts\<close>: \<^verbatim>\<open>str(uuid.uuid4())\<close> in the two file names;
  \<^item> \<open>open_wb\<close>, \<open>file_write\<close>: \<^verbatim>\<open>open(temp_filename, 'wb')\<close> and \<^verbatim>\<open>temp_file.write(audio_data)\<close>;
  \<^item> \<open>recognize_google\<close>: \<^verbatim>\<open>recognizer.recognize_google(audio)\<close>;
  \<^item> \<open>remove_audio\<close>, \<open>remove_tts\<close>: the two calls of \<^verbatim>\<open>os.remove\<close>;
  \<^item> \<open>create\<close>: \<^verbatim>\<open>client.chat.completions.create(...)\<close> up to
    \<^verbatim>\<open>choices[0].message.content\<close>;
  \<^item> \<open>save\<close>: \<^verbatim>\<open>edge_tts.Communicate(...)\<close> and \<^verbatim>\<open>communicate.save(output_file)\<close>, and
    \<open>save_creates\<close>: whether it left a file at \<^verbatim>\<open>output_file\<close>;
  \<^item> \<open>playback\<close>: \<^verbatim>\<open>pygame.mixer.music.load\<close>, \<^verbatim>\<open>play\<close> and the polling loop, and
    \<open>busy_polls\<close>: for how many polls \<^verbatim>\<open>get_busy()\<close> answers true (the audio is finite);
  \<^item> \<open>unload\<close>: \<^verbatim>\<open>pygame.mixer.music.unload()\<close>;
  \<^item> \<open>unlink\<close>: \<^verbatim>\<open>os.unlink(file_path)\<close> in \<^verbatim>\<open>cleanup_old_files\<close>, by file name.
\<close>

record collab =
  getcwd :: pystr
  format_exc :: "exn \<Rightarrow> pystr"
  Microphone :: "exn option"
  listen :: "exn + nat list"
  uuid4_audio :: pystr
  open_wb :: "exn option"
  file_write :: "exn option"
  recognize_google :: "exn + pystr"
  remove_audio :: "exn option"
  create :: "exn + pystr"
  uuid4_tts :: pystr
  save_creates :: bool
  save :: "exn option"
  playback :: "exn option"
  busy_polls :: nat
  unload :: "exn option"
  remove_tts :: "exn option"
  unlink :: "pystr \<Rightarrow> exn option"

text \<open>\<^verbatim>\<open>posixpath.join\<close> of two components.\<close>

definition os_path_join :: "pystr \<Rightarrow> pystr \<Rightarrow> pystr" where
  "os_path_join a b =
     (if b \<noteq> [] \<and> hd b = 47 then b
      else if a = [] \<or> last a = 47 then a @ b
      else a @ [47] @ b)"

definition TEMP_DIR :: "collab \<Rightarrow> pystr" where
  "TEMP_DIR c = os_path_join (getcwd c) (ustr ''temp_audio'')"

subsection \<open>Effects on the state\<close>

definition report :: "ui_msg list \<Rightarrow> 'a world_scheme \<Rightarrow> 'a world_scheme" where
  "report ms w = w\<lparr>shown := shown w @ ms\<rparr>"

definition append_history :: "message \<Rightarrow> 'a session_state_scheme \<Rightarrow> 'a session_state_scheme" where
  "append_history m s = s\<lparr>chat_history := chat_history s @ [m]\<rparr>"

definition create_file :: "pystr \<Rightarrow> 'a world_scheme \<Rightarrow> 'a world_scheme" where
  "create_file n w = (if n \<in> set (temp_dir w) then w else w\<lparr>temp_dir := temp_dir w @ [n]\<rparr>)"

definition delete_file :: "pystr \<Rightarrow> 'a world_scheme \<Rightarrow> 'a world_scheme" where
  "delete_file n w = w\<lparr>temp_dir := removeAll n (temp_dir w)\<rparr>"

subsection \<open>\<^verbatim>\<open>generate_speech\<close> and \<^verbatim>\<open>speak\<close>\<close>

definition generate_speech :: "collab \<Rightarrow> pystr \<Rightarrow> pystr \<Rightarrow> world \<Rightarrow> bool \<times> world" where
  "generate_speech c text output_file w =
     (let w1 = (if save_creates c then create_file output_file w else w)
      in case save c of
           None \<Rightarrow> (True, w1)
         | Some (NoAudioReceived m) \<Rightarrow>
             (False, report [st_error (ustr ''Voice '' @ selected_voice w
                                        @ ustr '' failed to generate speech'')] w1)
         | Some e \<Rightarrow>
             (False, report [st_error (ustr ''Error generating speech: '' @ str e)] w1))"

text \<open>
  The loop \<^verbatim>\<open>while pygame.mixer.music.get_busy(): pygame.time.Clock().tick(10)\<close>: one
  round for every poll that finds the mixer busy.
\<close>

fun wait_while_busy :: "nat \<Rightarrow> world \<Rightarrow> world" where
  "wait_while_busy 0 w = w"
| "wait_while_busy (Suc polls) w = wait_while_busy polls w"

text \<open>
  The inner \<^verbatim>\<open>try\<close> of \<^verbatim>\<open>speak\<close>: a \<^verbatim>\<open>pygame.error\<close> is reported and swallowed,
  any other exception leaves the block.
\<close>

definition play_audio :: "collab \<Rightarrow> world \<Rightarrow> exn option \<times> world" where
  "play_audio c w =
     (case playback c of
        None \<Rightarrow> (None, wait_while_busy (busy_polls c) w)
      | Some (pygame_error m) \<Rightarrow> (None, report [st_error (ustr ''Pygame error: '' @ m)] w)
      | Some e \<Rightarrow> (Some e, w))"

definition speak_except :: "collab \<Rightarrow> exn \<Rightarrow> world \<Rightarrow> world" where
  "speak_except c e w =
     report [st_error (ustr ''Speech error: '' @ str e), st_error (format_exc c e)] w"

definition speak :: "collab \<Rightarrow> pystr \<Rightarrow> world \<Rightarrow> world" where
  "speak c text w =
     (let temp_file = ustr ''tts_'' @ uuid4_tts c @ ustr ''.mp3'';
          (success, w1) = generate_speech c text temp_file w
      in if temp_file \<notin> set (temp_dir w1)
         then report [st_error (ustr ''Speech file was not generated'')] w1
         else (case play_audio c w1 of
                 (Some e, w2) \<Rightarrow> speak_except c e w2
               | (None, w2) \<Rightarrow>
                   (case unload c of
                      Some e \<Rightarrow> speak_except c e w2
                    | None \<Rightarrow>
                        (case remove_tts c of
                           Some e \<Rightarrow> speak_except c e w2
                         | None \<Rightarrow> delete_file temp_file w2))))"

subsection \<open>\<^verbatim>\<open>cleanup_old_files\<close>\<close>

text \<open>
  The loop over \<^verbatim>\<open>os.listdir(Config.TEMP_DIR)\<close>, the listing taken once before the
  first round: a file whose \<^verbatim>\<open>os.unlink\<close> raises is reported and stays.
\<close>

fun cleanup_loop :: "collab \<Rightarrow> pystr list \<Rightarrow> world \<Rightarrow> world" where
  "cleanup_loop c [] w = w"
| "cleanup_loop c (file # files) w =
     cleanup_loop c files
       (case unlink c file of
          None \<Rightarrow> delete_file file w
        | Some e \<Rightarrow>
            report [st_error (ustr ''Error deleting '' @ os_path_join (TEMP_DIR c) file
                              @ ustr '': '' @ str e)] w)"

definition cleanup_old_files :: "collab \<Rightarrow> world \<Rightarrow> world" where
  "cleanup_old_files c w = cleanup_loop c (temp_dir w) w"

subsection \<open>\<^verbatim>\<open>transcribe_and_generate_response\<close>\<close>

text \<open>
  How a block of statements ends: it runs to its end or returns (\<open>Normal\<close>), it raises a
  subclass of \<^verbatim>\<open>Exception\<close>, or \<^verbatim>\<open>st.rerun()\<close> raises Streamlit's
  \<^verbatim>\<open>RerunException\<close>, which no \<^verbatim>\<open>except Exception\<close> clause catches.
\<close>

datatype control = Normal | Raise exn | RerunException

text \<open>
  The block \<^verbatim>\<open>with st.spinner("Processing...")\<close>: the recording is written to a file,
  transcribed, and the user turn is appended; the \<^verbatim>\<open>finally\<close> clause removes the file,
  and an exception raised there replaces the one on its way.
\<close>

definition process_audio :: "collab \<Rightarrow> world \<Rightarrow> control \<times> world" where
  "process_audio c w =
     (let temp_filename = ustr ''audio_'' @ uuid4_audio c @ ustr ''.wav'';
          (r, w1) =
            (case open_wb c of
               Some e \<Rightarrow> (Raise e, w)
             | None \<Rightarrow>
                 (let w0 = create_file temp_filename w
                  in case file_write c of
                       Some e \<Rightarrow> (Raise e, w0)
                     | None \<Rightarrow>
                         (case recognize_google c of
                            Inl e \<Rightarrow> (Raise e, w0)
                          | Inr transcribed_text \<Rightarrow>
                              (Normal, append_history
                                 \<lparr>role = ustr ''user'', content = transcribed_text\<rparr> w0))))
      in if temp_filename \<in> set (temp_dir w1)
         then (case remove_audio c of
                 Some e \<Rightarrow> (Raise e, w1)
               | None \<Rightarrow> (r, delete_file temp_filename w1))
         else (r, w1))"

definition system_message :: message where
  "system_message =
     \<lparr>role = ustr ''system'',
      content = ustr ''You are a concise assistant. Always respond in 40 words or less.''\<rparr>"

text \<open>From \<^verbatim>\<open># Generate response\<close> to \<^verbatim>\<open>st.rerun()\<close>.\<close>

definition generate_response :: "collab \<Rightarrow> world \<Rightarrow> control \<times> world" where
  "generate_response c w =
     (let msgs = [system_message] @ chat_history w;
          w1 = w\<lparr>llm_calls := llm_calls w
                  @ [\<lparr>messages = msgs, model = LLM_MODEL,
                      max_tokens = MAX_TOKENS, temperature = TEMPERATURE\<rparr>]\<rparr>
      in case create c of
           Inl e \<Rightarrow> (Raise e, w1)
         | Inr llm_response \<Rightarrow>
             (let w2 = append_history \<lparr>role = ustr ''assistant'', content = llm_response\<rparr> w1;
                  w3 = limit_history w2;
                  w4 = speak c llm_response w3
              in (RerunException, w4)))"

text \<open>The body of the outer \<^verbatim>\<open>try\<close>.\<close>

definition try_block :: "collab \<Rightarrow> world \<Rightarrow> control \<times> world" where
  "try_block c w =
     (case Microphone c of
        Some e \<Rightarrow> (Raise e, w)
      | None \<Rightarrow>
          (let w1 = report [st_write (ustr ''Please speak something...'')] w
           in case listen c of
                Inl (WaitTimeoutError m) \<Rightarrow>
                  (Normal, report [st_warning (ustr ''No speech detected. Please try again.'')] w1)
              | Inl e \<Rightarrow> (Raise e, w1)
              | Inr audio_data \<Rightarrow>
                  if audio_data = []
                  then (Normal,
                        report [st_warning (ustr ''No audio was recorded. Please try again.'')] w1)
                  else (case process_audio c w1 of
                          (Normal, w2) \<Rightarrow> generate_response c w2
                        | (r, w2) \<Rightarrow> (r, w2))))"

text \<open>The three \<^verbatim>\<open>except\<close> clauses, in the order of the source.\<close>

fun except_clauses :: "collab \<Rightarrow> exn \<Rightarrow> ui_msg list" where
  "except_clauses c (RequestError m) = [st_error (ustr ''Could not request results: '' @ m)]"
| "except_clauses c (UnknownValueError m) =
     [st_error (ustr ''Could not understand audio. Please try again.'')]"
| "except_clauses c e =
     [st_error (ustr ''An error occurred: '' @ str e), st_error (format_exc c e)]"

text \<open>
  The outer \<^verbatim>\<open>try\<close> with its handlers: a raised exception is turned into messages and
  the function goes on to its end.
\<close>

definition try_except :: "collab \<Rightarrow> world \<Rightarrow> control \<times> world" where
  "try_except c w =
     (case try_block c w of
        (Raise e, w1) \<Rightarrow> (Normal, report (except_clauses c e) w1)
      | (r, w1) \<Rightarrow> (r, w1))"

text \<open>
  The whole function: the \<^verbatim>\<open>finally\<close> clause runs \<^verbatim>\<open>cleanup_old_files\<close> however the
  block was left. The result says how the function is left: \<open>Normal\<close> (it returns and the
  script goes on) or \<open>RerunException\<close> (the script is run again from the top).
\<close>

definition transcribe_and_generate_response :: "collab \<Rightarrow> world \<Rightarrow> control \<times> world" where
  "transcribe_and_generate_response c w =
     (case try_except c w of (r, w2) \<Rightarrow> (r, cleanup_old_files c w2))"

text \<open>Several cycles, one after the other, each with its own collaborator answers.\<close>

fun run_cycles :: "collab list \<Rightarrow> world \<Rightarrow> world" where
  "run_cycles [] w = w"
| "run_cycles (c # cs) w = run_cycles cs (snd (transcribe_and_generate_response c w))"

section \<open>The voice catalogue and the voice picker\<close>

text \<open>
  An entry of the list that \<^verbatim>\<open>edge_tts.list_voices()\<close> returns, with the two keys that
  the script reads.
\<close>

record edge_voice =
  ShortName :: pystr
  Locale :: pystr

text \<open>
  \<^verbatim>\<open>get_available_voices\<close>: the list of the collaborator, or the empty list and an
  error message when the call raises.
\<close>

definition get_available_voices :: "exn + edge_voice list \<Rightarrow> world \<Rightarrow> edge_voice list \<times> world" where
  "get_available_voices list_voices w =
     (case list_voices of
        Inr voices \<Rightarrow> (voices, w)
      | Inl e \<Rightarrow> ([], report [st_error (ustr ''Error getting voices: '' @ str e)] w))"

definition initialize_voices :: "exn + edge_voice list \<Rightarrow> world \<Rightarrow> world" where
  "initialize_voices list_voices w =
     (case get_available_voices list_voices w of
        (voices, w1) \<Rightarrow>
          w1\<lparr>available_voices :=
                map (\<lambda>voice. \<lparr>name = ShortName voice,
                               display = Locale voice @ ustr '' - '' @ ShortName voice\<rparr>)
                    voices\<rparr>)"

text \<open>\<^verbatim>\<open>list.index\<close>: the first position of a value, \<open>None\<close> for \<^verbatim>\<open>ValueError\<close>.\<close>

fun list_index :: "'a list \<Rightarrow> 'a \<Rightarrow> nat option" where
  "list_index [] v = None"
| "list_index (x # xs) v =
     (if x = v then Some 0
      else (case list_index xs v of None \<Rightarrow> None | Some i \<Rightarrow> Some (Suc i)))"

text \<open>
  \<^verbatim>\<open>st.selectbox(label, options=..., index=...)\<close>: the option that the user picked, given
  by its position, or the option at \<open>index\<close> as long as the user has picked none.
\<close>

definition selectbox :: "pystr list \<Rightarrow> nat \<Rightarrow> nat option \<Rightarrow> pystr" where
  "selectbox options index picked =
     (case picked of
        None \<Rightarrow> options ! index
      | Some i \<Rightarrow> if i < length options then options ! i else options ! index)"

text \<open>The \<^verbatim>\<open>try\<close> statement that computes \<^verbatim>\<open>default_idx\<close>.\<close>

definition default_idx :: "pystr list \<Rightarrow> nat" where
  "default_idx voice_names =
     (case list_index voice_names DEFAULT_VOICE of Some i \<Rightarrow> i | None \<Rightarrow> 0)"

text \<open>
  The first \<^verbatim>\<open>if\<close> statement of the sidebar. The two list accesses raise when they
  miss: \<^verbatim>\<open>ValueError\<close> from \<^verbatim>\<open>voice_options.index\<close>, \<^verbatim>\<open>IndexError\<close> from
  \<^verbatim>\<open>voice_names[selected_idx]\<close>.
\<close>

definition voice_picker :: "nat option \<Rightarrow> world \<Rightarrow> exn + world" where
  "voice_picker picked w =
     (if available_voices w \<noteq> []
      then (let voice_options = map display (available_voices w);
                voice_names = map name (available_voices w);
                selected_display = selectbox voice_options (default_idx voice_names) picked
            in case list_index voice_options selected_display of
                 None \<Rightarrow> Inl (OtherException (ustr ''ValueError''))
               | Some selected_idx \<Rightarrow>
                   if selected_idx < length voice_names
                   then Inr (w\<lparr>selected_voice := voice_names ! selected_idx\<rparr>)
                   else Inl (OtherException (ustr ''IndexError'')))
      else Inr (report [st_warning (ustr ''No voices available'')] w))"

section \<open>The export of the history\<close>

subsection \<open>\<^verbatim>\<open>json.dumps\<close>\<close>

text \<open>
  The Python values that the script hands to \<^verbatim>\<open>json.dumps\<close>: strings, lists, and dicts
  with string keys, a dict given by its items in insertion order.
\<close>

datatype pyval = PyStr pystr | PyList "pyval list" | PyDict "(pystr \<times> pyval) list"

text \<open>\<^verbatim>\<open>'{0:04x}'.format(n)\<close>, for the numbers below \<^verbatim>\<open>0x10000\<close> that it is used on.\<close>

definition hexdigit :: "nat \<Rightarrow> nat" where
  "hexdigit d = (if d < 10 then 48 + d else 87 + d)"

definition hex4 :: "nat \<Rightarrow> pystr" where
  "hex4 n = [hexdigit (n div 4096 mod 16), hexdigit (n div 256 mod 16),
             hexdigit (n div 16 mod 16), hexdigit (n mod 16)]"

text \<open>
  The replacement of one code point in \<^verbatim>\<open>json.encoder.py_encode_basestring_ascii\<close>
  (\<^verbatim>\<open>ensure_ascii\<close> is true by default): the quote and the backslash are escaped,
  the other code points from the space to the tilde stand for themselves, five control
  characters have short escapes, and every other code point becomes \<^verbatim>\<open>\uXXXX\<close>, as a
  surrogate pair from \<^verbatim>\<open>0x10000\<close> on (\<^verbatim>\<open>0xd800 | x\<close> and \<^verbatim>\<open>0xdc00 | x\<close> for
  \<open>x\<close> below 1024 are sums).
\<close>

definition escape :: "nat \<Rightarrow> pystr" where
  "escape n =
     (if n = 34 then [92, 34]
      else if n = 92 then [92, 92]
      else if 32 \<le> n \<and> n \<le> 126 then [n]
      else if n = 8 then [92, 98]
      else if n = 12 then [92, 102]
      else if n = 10 then [92, 110]
      else if n = 13 then [92, 114]
      else if n = 9 then [92, 116]
      else if n < 65536 then [92, 117] @ hex4 n
      else (let v = n - 65536;
                s1 = 55296 + v div 1024 mod 1024;
                s2 = 56320 + v mod 1024
            in [92, 117] @ hex4 s1 @ [92, 117] @ hex4 s2))"

definition encode_basestring_ascii :: "pystr \<Rightarrow> pystr" where
  "encode_basestring_ascii s = [34] @ concat (map escape s) @ [34]"

text \<open>\<^verbatim>\<open>'\n' + _indent * _current_indent_level\<close>, with \<^verbatim>\<open>_indent = ' ' * indent\<close>.\<close>

definition newline_indent :: "nat \<Rightarrow> nat \<Rightarrow> pystr" where
  "newline_indent indent level = 10 # replicate (indent * level) 32"

text \<open>\<^verbatim>\<open>separator.join(chunks)\<close>.\<close>

fun join :: "pystr \<Rightarrow> pystr list \<Rightarrow> pystr" where
  "join separator [] = []"
| "join separator [chunk] = chunk"
| "join separator (chunk # chunks) = chunk @ separator @ join separator chunks"

text \<open>
  \<^verbatim>\<open>_iterencode\<close> with an indent: the item separator is a comma followed by the new
  line, the key separator is a colon and a space, and an empty list or dict is written
  without a line break.
\<close>

fun iterencode :: "nat \<Rightarrow> nat \<Rightarrow> pyval \<Rightarrow> pystr" where
  "iterencode indent level (PyStr s) = encode_basestring_ascii s"
| "iterencode indent level (PyList lst) =
     (if lst = [] then ustr ''[]''
      else ustr ''['' @ newline_indent indent (Suc level)
           @ join (ustr '','' @ newline_indent indent (Suc level))
               (map (iterencode indent (Suc level)) lst)
           @ newline_indent indent level @ ustr '']'')"
| "iterencode indent level (PyDict dct) =
     (if dct = [] then ustr ''{}''
      else ustr ''{'' @ newline_indent indent (Suc level)
           @ join (ustr '','' @ newline_indent indent (Suc level))
               (map (\<lambda>item. encode_basestring_ascii (fst item) @ ustr '': ''
                              @ iterencode indent (Suc level) (snd item)) dct)
           @ newline_indent indent level @ ustr ''}'')"

definition json_dumps :: "pyval \<Rightarrow> nat \<Rightarrow> pystr" where
  "json_dumps obj indent = iterencode indent 0 obj"

subsection \<open>\<^verbatim>\<open>datetime\<close>\<close>

text \<open>A naive \<^verbatim>\<open>datetime\<close>, as \<^verbatim>\<open>datetime.now()\<close> returns it.\<close>

record datetime =
  year :: nat
  month :: nat
  day :: nat
  hour :: nat
  minute :: nat
  second :: nat
  microsecond :: nat

text \<open>\<^verbatim>\<open>'%d' % n\<close> and \<^verbatim>\<open>'%0wd' % n\<close>.\<close>

fun dec :: "nat \<Rightarrow> pystr" where
  "dec n = (if n < 10 then [48 + n] else dec (n div 10) @ [48 + n mod 10])"

definition pad0 :: "nat \<Rightarrow> nat \<Rightarrow> pystr" where
  "pad0 w n = replicate (w - length (dec n)) 48 @ dec n"

text \<open>
  \<^verbatim>\<open>datetime.isoformat()\<close> of a naive value: the fraction is written only when the
  microseconds are not zero.
\<close>

definition isoformat :: "datetime \<Rightarrow> pystr" where
  "isoformat dt =
     pad0 4 (year dt) @ ustr ''-'' @ pad0 2 (month dt) @ ustr ''-'' @ pad0 2 (day dt)
     @ ustr ''T'' @ pad0 2 (hour dt) @ ustr '':'' @ pad0 2 (minute dt)
     @ ustr '':'' @ pad0 2 (second dt)
     @ (if microsecond dt \<noteq> 0 then ustr ''.'' @ pad0 6 (microsecond dt) else [])"

text \<open>
  \<^verbatim>\<open>strftime('%Y%m%d_%H%M%S')\<close>. The year is written with four digits, as every
  platform does for the years from 1000 on.
\<close>

definition strftime :: "datetime \<Rightarrow> pystr" where
  "strftime dt =
     pad0 4 (year dt) @ pad0 2 (month dt) @ pad0 2 (day dt) @ ustr ''_''
     @ pad0 2 (hour dt) @ pad0 2 (minute dt) @ pad0 2 (second dt)"

subsection \<open>\<^verbatim>\<open>download_chat_history\<close> and the download button\<close>

definition message_dict :: "message \<Rightarrow> pyval" where
  "message_dict m = PyDict [(ustr ''role'', PyStr (role m)), (ustr ''content'', PyStr (content m))]"

text \<open>The dict \<^verbatim>\<open>history_data\<close>; \<open>now\<close> is what \<^verbatim>\<open>datetime.now()\<close> returns there.\<close>

definition history_data :: "datetime \<Rightarrow> 'a session_state_scheme \<Rightarrow> pyval" where
  "history_data now s =
     PyDict [(ustr ''timestamp'', PyStr (isoformat now)),
             (ustr ''messages'', PyList (map message_dict (chat_history s)))]"

definition download_chat_history :: "datetime \<Rightarrow> 'a session_state_scheme \<Rightarrow> pystr" where
  "download_chat_history now s = json_dumps (history_data now s) 2"

text \<open>The keyword arguments of \<^verbatim>\<open>st.download_button\<close>.\<close>

record download_button =
  label :: pystr
  data :: pystr
  file_name :: pystr
  mime :: pystr

text \<open>
  The second \<^verbatim>\<open>if\<close> statement of the sidebar: \<open>clicked\<close> is what
  \<^verbatim>\<open>st.button("Download Chat History")\<close> returns, \<open>now\<close> and \<open>now'\<close> are the two
  readings of the clock, in the order of the arguments.
\<close>

definition download_section ::
    "bool \<Rightarrow> datetime \<Rightarrow> datetime \<Rightarrow> 'a session_state_scheme \<Rightarrow> download_button option" where
  "download_section clicked now now' s =
     (if clicked
      then Some \<lparr>label = ustr ''Download JSON'',
                 data = download_chat_history now s,
                 file_name = ustr ''chat_history_'' @ strftime now' @ ustr ''.json'',
                 mime = ustr ''application/json''\<rparr>
      else None)"

declare dec.simps [simp del]

section \<open>Notions used to state the properties\<close>

text \<open>The two dict literals that the cycle appends, and the suffix of a list of length \<open>n\<close>.\<close>

definition user_turn :: "pystr \<Rightarrow> message" where
  "user_turn t = \<lparr>role = ustr ''user'', content = t\<rparr>"

definition assistant_turn :: "pystr \<Rightarrow> message" where
  "assistant_turn t = \<lparr>role = ustr ''assistant'', content = t\<rparr>"

definition latest :: "nat \<Rightarrow> 'a list \<Rightarrow> 'a list" where
  "latest n xs = drop (length xs - n) xs"

text \<open>
  The cycle gets as far as \<^verbatim>\<open>recognize_google\<close>: the microphone opens, a recording with
  data arrives, and the recording is written to its file.
\<close>

definition reaches_recognition :: "collab \<Rightarrow> bool" where
  "reaches_recognition c \<longleftrightarrow>
     Microphone c = None
     \<and> (case listen c of Inl e \<Rightarrow> False | Inr audio_data \<Rightarrow> audio_data \<noteq> [])
     \<and> open_wb c = None \<and> file_write c = None"

text \<open>The text of a transcription that succeeds; \<open>None\<close> when the cycle fails before that.\<close>

definition transcript :: "collab \<Rightarrow> pystr option" where
  "transcript c =
     (if reaches_recognition c
      then (case recognize_google c of Inl e \<Rightarrow> None | Inr t \<Rightarrow> Some t)
      else None)"

text \<open>
  A cycle that goes through: the transcription gives \<open>u\<close>, the recording's file is removed,
  and the language model answers \<open>a\<close>.
\<close>

definition completes :: "collab \<Rightarrow> pystr \<Rightarrow> pystr \<Rightarrow> bool" where
  "completes c u a \<longleftrightarrow> transcript c = Some u \<and> remove_audio c = None \<and> create c = Inr a"

definition exchange_turns :: "pystr \<times> pystr \<Rightarrow> message list" where
  "exchange_turns p = [user_turn (fst p), assistant_turn (snd p)]"

text \<open>The request that carries the history \<open>h\<close>.\<close>

definition sent :: "message list \<Rightarrow> request" where
  "sent h = \<lparr>messages = system_message # h, model = LLM_MODEL,
             max_tokens = MAX_TOKENS, temperature = TEMPERATURE\<rparr>"

text \<open>Every entry of the history is a user or an assistant turn.\<close>

definition conversation :: "message list \<Rightarrow> bool" where
  "conversation h \<longleftrightarrow> list_all (\<lambda>m. role m = ustr ''user'' \<or> role m = ustr ''assistant'') h"

text \<open>The messages that \<^verbatim>\<open>cleanup_old_files\<close> shows for a listing.\<close>

definition cleanup_reports :: "collab \<Rightarrow> pystr list \<Rightarrow> ui_msg list" where
  "cleanup_reports c files =
     concat (map (\<lambda>file. case unlink c file of
                            None \<Rightarrow> []
                          | Some e \<Rightarrow>
                              [st_error (ustr ''Error deleting '' @ os_path_join (TEMP_DIR c) file
                                         @ ustr '': '' @ str e)]) files)"

subsection \<open>Concrete sessions\<close>

text \<open>
  The session state of a first run (the four \<^verbatim>\<open>if ... not in st.session_state\<close>
  statements), with an empty temporary directory and nothing shown or sent yet.
\<close>

definition initial_world :: world where
  "initial_world =
     \<lparr>selected_voice = DEFAULT_VOICE, available_voices = [], chat_history = [],
      system_tested = False, temp_dir = [], shown = [], llm_calls = []\<rparr>"

text \<open>A cycle in which every collaborator answers: the user says \<open>u\<close>, the model says \<open>a\<close>.\<close>

definition answering :: "pystr \<Rightarrow> pystr \<Rightarrow> collab" where
  "answering u a =
     \<lparr>getcwd = ustr ''/srv/app'',
      format_exc = (\<lambda>e. ustr ''Traceback (most recent call last):''),
      Microphone = None, listen = Inr [82, 73, 70, 70], uuid4_audio = ustr ''0a1b'',
      open_wb = None, file_write = None, recognize_google = Inr u, remove_audio = None,
      create = Inr a, uuid4_tts = ustr ''2c3d'', save_creates = True, save = None,
      playback = None, busy_polls = 3, unload = None, remove_tts = None,
      unlink = (\<lambda>file. None)\<rparr>"

text \<open>The \<open>i\<close>-th exchange of a long conversation: turns number \<open>2 i + 1\<close> and \<open>2 i + 2\<close>.\<close>

definition exchange_texts :: "nat \<Rightarrow> pystr \<times> pystr" where
  "exchange_texts i = ([2 * i + 1], [2 * i + 2])"

definition exchange :: "nat \<Rightarrow> collab" where
  "exchange i = answering (fst (exchange_texts i)) (snd (exchange_texts i))"

text \<open>Cycles that fail: at the language model, while listening, and in the transcription.\<close>

definition generation_fails :: collab where
  "generation_fails =
     (answering (ustr ''hello'') [])\<lparr>create := Inl (OtherException (ustr ''503''))\<rparr>"

definition no_speech :: collab where
  "no_speech =
     (answering [] [])\<lparr>listen := Inl (WaitTimeoutError (ustr ''listening timed out''))\<rparr>"

definition service_down :: collab where
  "service_down =
     (answering [] [])\<lparr>recognize_google := Inl (RequestError (ustr ''connection failed''))\<rparr>"

definition unintelligible :: collab where
  "unintelligible = (answering [] [])\<lparr>recognize_google := Inl (UnknownValueError [])\<rparr>"



text \<open>A history of 51 turns and one of two.\<close>

definition fifty_one_turns :: world where
  "fifty_one_turns = initial_world\<lparr>chat_history := map (\<lambda>k. user_turn [k]) [0..<51]\<rparr>"

definition two_turns :: world where
  "two_turns = initial_world\<lparr>chat_history := [user_turn (ustr ''hello''), assistant_turn (ustr ''hi'')]\<rparr>"

subsection \<open>Concrete catalogues\<close>

definition jenny :: edge_voice where
  "jenny = \<lparr>ShortName = ustr ''en-US-JennyNeural'', Locale = ustr ''en-US''\<rparr>"

definition sonia :: edge_voice where
  "sonia = \<lparr>ShortName = ustr ''en-GB-SoniaNeural'', Locale = ustr ''en-GB''\<rparr>"

definition katja :: edge_voice where
  "katja = \<lparr>ShortName = ustr ''de-DE-KatjaNeural'', Locale = ustr ''de-DE''\<rparr>"

text \<open>
  A session in which the user picks the second voice of the catalogue, and the run after
  it, in which the catalogue cannot be fetched.
\<close>

definition sonia_picked :: "exn + world" where
  "sonia_picked = voice_picker (Some 1) (initialize_voices (Inr [jenny, sonia]) initial_world)"

definition catalogue_lost :: "exn + world" where
  "catalogue_lost =
     (case sonia_picked of
        Inl e \<Rightarrow> Inl e
      | Inr w \<Rightarrow>
          voice_picker None
            (initialize_voices (Inl (OtherException (ustr ''Cannot connect to host''))) w))"

text \<open>Catalogues with the default voice in second place, and without it.\<close>

definition with_default :: world where
  "with_default = initialize_voices (Inr [sonia, jenny]) initial_world"

definition without_default :: world where
  "without_default = initialize_voices (Inr [sonia, katja]) initial_world"

subsection \<open>Reading the export\<close>

text \<open>The keys of a dict and the value under a key.\<close>

fun dict_keys :: "pyval \<Rightarrow> pystr list" where
  "dict_keys (PyDict dct) = map fst dct"
| "dict_keys v = []"

fun dict_get :: "pyval \<Rightarrow> pystr \<Rightarrow> pyval option" where
  "dict_get (PyDict dct) key = map_of dct key"
| "dict_get v key = None"

text \<open>Exactly \<open>w\<close> decimal digits, the last \<open>w\<close> digits of \<open>n\<close>.\<close>

primrec fixed :: "nat \<Rightarrow> nat \<Rightarrow> pystr" where
  "fixed 0 n = []"
| "fixed (Suc w) n = fixed w (n div 10) @ [48 + n mod 10]"

definition digit :: "nat \<Rightarrow> bool" where
  "digit c \<longleftrightarrow> 48 \<le> c \<and> c \<le> 57"

text \<open>The ranges of the fields of a \<^verbatim>\<open>datetime\<close> object.\<close>

definition valid_datetime :: "datetime \<Rightarrow> bool" where
  "valid_datetime dt \<longleftrightarrow>
     1 \<le> year dt \<and> year dt \<le> 9999 \<and> 1 \<le> month dt \<and> month dt \<le> 12
     \<and> 1 \<le> day dt \<and> day dt \<le> 31 \<and> hour dt < 24 \<and> minute dt < 60 \<and> second dt < 60
     \<and> microsecond dt < 1000000"

text \<open>
  A reader of the extended ISO 8601 format for a local date and time,
  \<^verbatim>\<open>YYYY-MM-DDTHH:MM:SS\<close> with an optional fraction of six digits.
\<close>

fun digits_value :: "nat \<Rightarrow> pystr \<Rightarrow> nat option" where
  "digits_value acc [] = Some acc"
| "digits_value acc (c # cs) =
     (if digit c then digits_value (10 * acc + (c - 48)) cs else None)"

definition parse_iso8601 :: "pystr \<Rightarrow> datetime option" where
  "parse_iso8601 s =
     (if (length s = 19 \<or> (length s = 26 \<and> s ! 19 = 46))
         \<and> s ! 4 = 45 \<and> s ! 7 = 45 \<and> s ! 10 = 84 \<and> s ! 13 = 58 \<and> s ! 16 = 58
      then
        Option.bind (digits_value 0 (take 4 s)) (\<lambda>y.
        Option.bind (digits_value 0 (take 2 (drop 5 s))) (\<lambda>mo.
        Option.bind (digits_value 0 (take 2 (drop 8 s))) (\<lambda>d.
        Option.bind (digits_value 0 (take 2 (drop 11 s))) (\<lambda>h.
        Option.bind (digits_value 0 (take 2 (drop 14 s))) (\<lambda>mi.
        Option.bind (digits_value 0 (take 2 (drop 17 s))) (\<lambda>sec.
        Option.bind (digits_value 0 (drop 20 s)) (\<lambda>us.
          (let dt = \<lparr>year = y, month = mo, day = d, hour = h, minute = mi,
                     second = sec, microsecond = us\<rparr>
           in if valid_datetime dt then Some dt else None))))))))
      else None)"

text \<open>A code point that \<^verbatim>\<open>json.dumps\<close> writes as it is.\<close>

definition plain :: "nat \<Rightarrow> bool" where
  "plain c \<longleftrightarrow> 32 \<le> c \<and> c \<le> 126 \<and> c \<noteq> 34 \<and> c \<noteq> 92"

text \<open>Two readings of the clock.\<close>

definition morning :: datetime where
  "morning = \<lparr>year = 2024, month = 3, day = 9, hour = 7, minute = 5, second = 0,
              microsecond = 120\<rparr>"

definition midnight :: datetime where
  "midnight = \<lparr>year = 2025, month = 12, day = 31, hour = 0, minute = 0, second = 0,
               microsecond = 0\<rparr>"

text \<open>
  The layout of the document: an ASCII code point, a string between double quotes, one
  entry of the \<^verbatim>\<open>messages\<close> array at the second level of indentation, and the array.
\<close>

definition ascii :: "nat \<Rightarrow> bool" where
  "ascii c \<longleftrightarrow> c < 128"

definition quoted :: "pystr \<Rightarrow> pystr" where
  "quoted s = 34 # s @ [34]"

definition entry_text :: "message \<Rightarrow> pystr" where
  "entry_text m =
     ustr ''{'' @ 10 # ustr ''      '' @ quoted (ustr ''role'') @ ustr '': ''
       @ encode_basestring_ascii (role m) @ ustr '','' @ 10 # ustr ''      ''
       @ quoted (ustr ''content'') @ ustr '': '' @ encode_basestring_ascii (content m)
       @ 10 # ustr ''    '' @ ustr ''}''"

definition messages_text :: "message list \<Rightarrow> pystr" where
  "messages_text h =
     (if h = [] then ustr ''[]''
      else ustr ''['' @ 10 # ustr ''    ''
           @ join (ustr '','' @ 10 # ustr ''    '') (map entry_text h)
           @ 10 # ustr ''  '' @ ustr '']'')"

subsection \<open>A reader of JSON text\<close>

text \<open>
  A reader of the JSON texts that are built from strings, arrays and objects, after
  RFC 8259: white space between the tokens, strings between double quotes with the
  escapes of the grammar, an escaped surrogate pair standing for one code point.
\<close>

definition whitespace :: "nat \<Rightarrow> bool" where
  "whitespace c \<longleftrightarrow> c = 32 \<or> c = 9 \<or> c = 10 \<or> c = 13"

definition skip_ws :: "pystr \<Rightarrow> pystr" where
  "skip_ws s = dropWhile whitespace s"

definition hexval :: "nat \<Rightarrow> nat option" where
  "hexval c =
     (if 48 \<le> c \<and> c \<le> 57 then Some (c - 48)
      else if 97 \<le> c \<and> c \<le> 102 then Some (c - 87)
      else if 65 \<le> c \<and> c \<le> 70 then Some (c - 55)
      else None)"

definition hex4_value :: "pystr \<Rightarrow> nat option" where
  "hex4_value s =
     (if length s = 4
      then Option.bind (hexval (s ! 0)) (\<lambda>x.
           Option.bind (hexval (s ! 1)) (\<lambda>y.
           Option.bind (hexval (s ! 2)) (\<lambda>z.
           Option.bind (hexval (s ! 3)) (\<lambda>w.
             Some (((x * 16 + y) * 16 + z) * 16 + w)))))
      else None)"

definition simple_escape :: "nat \<Rightarrow> nat option" where
  "simple_escape e =
     (if e = 34 then Some 34
      else if e = 92 then Some 92
      else if e = 47 then Some 47
      else if e = 98 then Some 8
      else if e = 102 then Some 12
      else if e = 110 then Some 10
      else if e = 114 then Some 13
      else if e = 116 then Some 9
      else None)"

definition high_surrogate :: "nat \<Rightarrow> bool" where
  "high_surrogate c \<longleftrightarrow> 55296 \<le> c \<and> c \<le> 56319"

definition low_surrogate :: "nat \<Rightarrow> bool" where
  "low_surrogate c \<longleftrightarrow> 56320 \<le> c \<and> c \<le> 57343"

text \<open>
  The characters of a string after its opening quote, up to the closing quote: the
  string read (collected in reverse in \<open>acc\<close>) and the rest of the text.
\<close>

fun read_chars :: "pystr \<Rightarrow> pystr \<Rightarrow> (pystr \<times> pystr) option" where
  "read_chars acc [] = None"
| "read_chars acc (c # cs) =
     (if c = 34 then Some (rev acc, cs)
      else if c = 92 then
        (case cs of
           [] \<Rightarrow> None
         | e # r \<Rightarrow>
             if e = 117 then
               (case hex4_value (take 4 r) of
                  None \<Rightarrow> None
                | Some u \<Rightarrow>
                    (case (if high_surrogate u \<and> take 2 (drop 4 r) = [92, 117]
                           then hex4_value (take 4 (drop 6 r)) else None) of
                       None \<Rightarrow> read_chars (u # acc) (drop 4 r)
                     | Some l \<Rightarrow>
                         if low_surrogate l
                         then read_chars ((65536 + (u - 55296) * 1024 + (l - 56320)) # acc)
                                (drop 10 r)
                         else read_chars (u # acc) (drop 4 r)))
             else (case simple_escape e of
                     None \<Rightarrow> None
                   | Some x \<Rightarrow> read_chars (x # acc) r))
      else if c < 32 then None
      else read_chars (c # acc) cs)"

declare read_chars.simps [simp del]

text \<open>
  A value, the elements of an array after its opening bracket, and the members of an
  object after its opening brace. The first argument bounds the number of nested calls;
  the length of the text is enough.
\<close>

fun read_value :: "nat \<Rightarrow> pystr \<Rightarrow> (pyval \<times> pystr) option"
  and read_elements :: "nat \<Rightarrow> pyval list \<Rightarrow> pystr \<Rightarrow> (pyval list \<times> pystr) option"
  and read_members ::
    "nat \<Rightarrow> (pystr \<times> pyval) list \<Rightarrow> pystr \<Rightarrow> ((pystr \<times> pyval) list \<times> pystr) option"
where
  "read_value 0 s = None"
| "read_value (Suc n) s =
     (case skip_ws s of
        [] \<Rightarrow> None
      | c # r \<Rightarrow>
          if c = 34 then
            (case read_chars [] r of None \<Rightarrow> None | Some (t, r') \<Rightarrow> Some (PyStr t, r'))
          else if c = 91 then
            (case skip_ws r of
               [] \<Rightarrow> None
             | d # r' \<Rightarrow>
                 if d = 93 then Some (PyList [], r')
                 else (case read_elements n [] r of
                         None \<Rightarrow> None
                       | Some (vs, r'') \<Rightarrow> Some (PyList vs, r'')))
          else if c = 123 then
            (case skip_ws r of
               [] \<Rightarrow> None
             | d # r' \<Rightarrow>
                 if d = 125 then Some (PyDict [], r')
                 else (case read_members n [] r of
                         None \<Rightarrow> None
                       | Some (ms, r'') \<Rightarrow> Some (PyDict ms, r'')))
          else None)"
| "read_elements 0 acc s = None"
| "read_elements (Suc n) acc s =
     (case read_value n s of
        None \<Rightarrow> None
      | Some (v, r) \<Rightarrow>
          (case skip_ws r of
             [] \<Rightarrow> None
           | c # r' \<Rightarrow>
               if c = 44 then read_elements n (v # acc) r'
               else if c = 93 then Some (rev (v # acc), r')
               else None))"
| "read_members 0 acc s = None"
| "read_members (Suc n) acc s =
     (case skip_ws s of
        [] \<Rightarrow> None
      | q # r \<Rightarrow>
          if q = 34 then
            (case read_chars [] r of
               None \<Rightarrow> None
             | Some (key, r1) \<Rightarrow>
                 (case skip_ws r1 of
                    [] \<Rightarrow> None
                  | c # r2 \<Rightarrow>
                      if c = 58 then
                        (case read_value n r2 of
                           None \<Rightarrow> None
                         | Some (v, r3) \<Rightarrow>
                             (case skip_ws r3 of
                                [] \<Rightarrow> None
                              | d # r4 \<Rightarrow>
                                  if d = 44 then read_members n ((key, v) # acc) r4
                                  else if d = 125 then Some (rev ((key, v) # acc), r4)
                                  else None))
                      else None))
          else None)"

text \<open>A whole text: one value, with nothing but white space after it.\<close>

definition json_loads :: "pystr \<Rightarrow> pyval option" where
  "json_loads s =
     (case read_value (length s) s of
        None \<Rightarrow> None
      | Some (v, r) \<Rightarrow> if skip_ws r = [] then Some v else None)"

text \<open>
  Text in the sense of Unicode: every code point is a scalar value, below
  \<^verbatim>\<open>0x110000\<close> and no surrogate. A value all of whose strings and keys are text.
\<close>

definition scalar :: "nat \<Rightarrow> bool" where
  "scalar c \<longleftrightarrow> c < 1114112 \<and> \<not> (55296 \<le> c \<and> c \<le> 57343)"

fun unicode :: "pyval \<Rightarrow> bool" where
  "unicode (PyStr s) = list_all scalar s"
| "unicode (PyList lst) = list_all unicode lst"
| "unicode (PyDict dct) = list_all (\<lambda>item. list_all scalar (fst item) \<and> unicode (snd item)) dct"

text \<open>What a reader of the export takes from the value read: the time and the turns.\<close>

definition read_timestamp :: "pyval \<Rightarrow> datetime option" where
  "read_timestamp v =
     (case dict_get v (ustr ''timestamp'') of
        Some (PyStr t) \<Rightarrow> parse_iso8601 t
      | _ \<Rightarrow> None)"

definition read_message :: "pyval \<Rightarrow> message option" where
  "read_message v =
     (case (dict_get v (ustr ''role''), dict_get v (ustr ''content'')) of
        (Some (PyStr r), Some (PyStr c)) \<Rightarrow>
          if dict_keys v = [ustr ''role'', ustr ''content'']
          then Some \<lparr>role = r, content = c\<rparr> else None
      | _ \<Rightarrow> None)"

fun read_all :: "pyval list \<Rightarrow> message list option" where
  "read_all [] = Some []"
| "read_all (v # vs) =
     (case read_message v of
        None \<Rightarrow> None
      | Some m \<Rightarrow> (case read_all vs of None \<Rightarrow> None | Some ms \<Rightarrow> Some (m # ms)))"

definition read_messages :: "pyval \<Rightarrow> message list option" where
  "read_messages v =
     (case dict_get v (ustr ''messages'') of
        Some (PyList vs) \<Rightarrow> read_all vs
      | _ \<Rightarrow> None)"

text \<open>A history all of whose roles and contents are text.\<close>

definition unicode_turns :: "message list \<Rightarrow> bool" where
  "unicode_turns h \<longleftrightarrow> list_all (\<lambda>m. list_all scalar (role m) \<and> list_all scalar (content m)) h"

text \<open>
  A history with a quote, a line break and a backslash in the first turn, and a letter
  with an accent and a code point beyond \<^verbatim>\<open>0xffff\<close> in the second.
\<close>

definition quoting_turns :: world where
  "quoting_turns =
     initial_world\<lparr>chat_history :=
       [user_turn [115, 97, 121, 32, 34, 104, 105, 34, 10, 92],
        assistant_turn [233, 32, 128512]]\<rparr>"

section \<open>Properties of the trim\<close>

lemma slice_from_neg_cap:
  "slice_from (- MAX_HISTORY_LENGTH) xs = drop (length xs - 50) xs"
proof -
  have "nat (max (int (length xs) - 50) 0) = length xs - 50"
    by arith
  then show ?thesis
    by (simp add: slice_from_def MAX_HISTORY_LENGTH_def Let_def)
qed

lemma chat_history_limit_history:
  "chat_history (limit_history s) = drop (length (chat_history s) - 50) (chat_history s)"
  by (simp add: limit_history_def slice_from_neg_cap) (simp add: MAX_HISTORY_LENGTH_def)

lemma limit_history_other_fields:
  "selected_voice (limit_history s) = selected_voice s"
  "available_voices (limit_history s) = available_voices s"
  "system_tested (limit_history s) = system_tested s"
  by (simp_all add: limit_history_def)

lemma length_limit_history:
  "length (chat_history (limit_history s)) = min (length (chat_history s)) 50"
  by (simp add: chat_history_limit_history)

section \<open>What the helpers of the cycle leave alone\<close>

lemma wait_while_busy_id [simp]: "wait_while_busy n w = w"
  by (induction n) simp_all

lemma chat_history_effects [simp]:
  "chat_history (report ms w) = chat_history w"
  "chat_history (create_file n w) = chat_history w"
  "chat_history (delete_file n w) = chat_history w"
  "chat_history (append_history m w) = chat_history w @ [m]"
  by (simp_all add: report_def create_file_def delete_file_def append_history_def)

lemma llm_calls_effects [simp]:
  "llm_calls (report ms w) = llm_calls w"
  "llm_calls (create_file n w) = llm_calls w"
  "llm_calls (delete_file n w) = llm_calls w"
  "llm_calls (append_history m w) = llm_calls w"
  "llm_calls (limit_history w) = llm_calls w"
  by (simp_all add: report_def create_file_def delete_file_def append_history_def
        limit_history_def)

lemma temp_dir_effects [simp]:
  "temp_dir (report ms w) = temp_dir w"
  "temp_dir (append_history m w) = temp_dir w"
  "temp_dir (limit_history w) = temp_dir w"
  "set (temp_dir (create_file n w)) = insert n (set (temp_dir w))"
  "temp_dir (delete_file n w) = removeAll n (temp_dir w)"
  by (auto simp: report_def create_file_def delete_file_def append_history_def
        limit_history_def)

lemma shown_effects [simp]:
  "shown (report ms w) = shown w @ ms"
  "shown (create_file n w) = shown w"
  "shown (delete_file n w) = shown w"
  "shown (append_history m w) = shown w"
  "shown (limit_history w) = shown w"
  by (simp_all add: report_def create_file_def delete_file_def append_history_def
        limit_history_def)

lemma generate_speech_keeps [simp]:
  "chat_history (snd (generate_speech c t f w)) = chat_history w"
  "llm_calls (snd (generate_speech c t f w)) = llm_calls w"
  by (simp_all add: generate_speech_def Let_def split: option.splits exn.splits)

lemma play_audio_keeps [simp]:
  "chat_history (snd (play_audio c w)) = chat_history w"
  "llm_calls (snd (play_audio c w)) = llm_calls w"
  by (simp_all add: play_audio_def split: option.splits exn.splits)

lemma speak_keeps [simp]:
  "chat_history (speak c t w) = chat_history w"
  "llm_calls (speak c t w) = llm_calls w"
proof -
  let ?f = "ustr ''tts_'' @ uuid4_tts c @ ustr ''.mp3''"
  obtain ok w1 where g: "generate_speech c t ?f w = (ok, w1)"
    by (cases "generate_speech c t ?f w")
  obtain r w2 where p: "play_audio c w1 = (r, w2)"
    by (cases "play_audio c w1")
  have 1: "chat_history w1 = chat_history w" "llm_calls w1 = llm_calls w"
    using generate_speech_keeps [of c t ?f w] g by simp_all
  have 2: "chat_history w2 = chat_history w1" "llm_calls w2 = llm_calls w1"
    using play_audio_keeps [of c w1] p by simp_all
  show "chat_history (speak c t w) = chat_history w"
    by (simp add: speak_def Let_def g p 1 2 speak_except_def split: option.splits)
  show "llm_calls (speak c t w) = llm_calls w"
    by (simp add: speak_def Let_def g p 1 2 speak_except_def split: option.splits)
qed

lemma cleanup_loop_keeps [simp]:
  "chat_history (cleanup_loop c fs w) = chat_history w"
  "llm_calls (cleanup_loop c fs w) = llm_calls w"
  by (induction fs arbitrary: w) (simp_all split: option.splits)

lemma cleanup_old_files_keeps [simp]:
  "chat_history (cleanup_old_files c w) = chat_history w"
  "llm_calls (cleanup_old_files c w) = llm_calls w"
  by (simp_all add: cleanup_old_files_def)

lemma shown_cleanup_loop:
  "shown (cleanup_loop c fs w) = shown w @ cleanup_reports c fs"
  by (induction fs arbitrary: w) (simp_all add: cleanup_reports_def split: option.splits)

lemma shown_cleanup_old_files:
  "shown (cleanup_old_files c w) = shown w @ cleanup_reports c (temp_dir w)"
  by (simp add: cleanup_old_files_def shown_cleanup_loop)



section \<open>The effect of one cycle\<close>

lemma process_audio_effect:
  "process_audio c w = (r, w2) \<Longrightarrow>
     llm_calls w2 = llm_calls w \<and>
     (case open_wb c of
        Some e \<Rightarrow> chat_history w2 = chat_history w \<and> r \<noteq> Normal \<and> r \<noteq> RerunException
      | None \<Rightarrow>
         (case file_write c of
            Some e \<Rightarrow> chat_history w2 = chat_history w \<and> r \<noteq> Normal \<and> r \<noteq> RerunException
          | None \<Rightarrow>
             (case recognize_google c of
                Inl e \<Rightarrow> chat_history w2 = chat_history w \<and> r \<noteq> Normal \<and> r \<noteq> RerunException
              | Inr t \<Rightarrow>
                  chat_history w2 = chat_history w @ [user_turn t] \<and>
                  (case remove_audio c of None \<Rightarrow> r = Normal | Some e \<Rightarrow> r = Raise e))))"
  by (auto simp: process_audio_def Let_def user_turn_def
           split: option.splits sum.splits if_splits)

lemma generate_response_effect:
  "generate_response c w = (r, w2) \<Longrightarrow>
     llm_calls w2 = llm_calls w @ [sent (chat_history w)] \<and>
     (case create c of
        Inl e \<Rightarrow> r = Raise e \<and> chat_history w2 = chat_history w
      | Inr a \<Rightarrow>
          r = RerunException \<and>
          chat_history w2 = latest 50 (chat_history w @ [assistant_turn a]))"
  by (auto simp: generate_response_def Let_def sent_def assistant_turn_def latest_def
        chat_history_limit_history split: sum.splits)

lemma try_block_effect:
  assumes "try_block c w = (r, w2)"
  shows "(case transcript c of
            None \<Rightarrow> chat_history w2 = chat_history w \<and> llm_calls w2 = llm_calls w
                    \<and> r \<noteq> RerunException
          | Some t \<Rightarrow>
             (case remove_audio c of
                Some e \<Rightarrow> chat_history w2 = chat_history w @ [user_turn t]
                         \<and> llm_calls w2 = llm_calls w \<and> r = Raise e
              | None \<Rightarrow>
                 llm_calls w2 = llm_calls w @ [sent (chat_history w @ [user_turn t])] \<and>
                 (case create c of
                    Inl e \<Rightarrow> r = Raise e \<and> chat_history w2 = chat_history w @ [user_turn t]
                  | Inr a \<Rightarrow>
                      r = RerunException \<and>
                      chat_history w2
                        = latest 50 (chat_history w @ [user_turn t, assistant_turn a]))))"
proof (cases "Microphone c")
  case (Some e)
  with assms show ?thesis
    by (auto simp: try_block_def transcript_def reaches_recognition_def)
next
  case None
  let ?w1 = "report [st_write (ustr ''Please speak something...'')] w"
  show ?thesis
  proof (cases "listen c")
    case (Inl e)
    with None assms show ?thesis
      by (auto simp: try_block_def transcript_def reaches_recognition_def Let_def
               split: exn.splits)
  next
    case (Inr audio_data)
    show ?thesis
    proof (cases "audio_data = []")
      case True
      with None Inr assms show ?thesis
        by (auto simp: try_block_def transcript_def reaches_recognition_def Let_def)
    next
      case False
      obtain r1 w1' where pa: "process_audio c ?w1 = (r1, w1')"
        by (cases "process_audio c ?w1")
      note pc = process_audio_effect [OF pa]
      show ?thesis
      proof (cases "r1 = Normal")
        case True
        with None Inr False pa assms have g: "generate_response c w1' = (r, w2)"
          by (simp add: try_block_def Let_def)
        from generate_response_effect [OF g] pc True show ?thesis
          by (auto simp: transcript_def reaches_recognition_def None Inr False
                   split: option.splits sum.splits)
      next
        case F: False
        with None Inr False pa assms have "r = r1" "w2 = w1'"
          by (auto simp: try_block_def Let_def split: control.splits)
        with pc F show ?thesis
          by (auto simp: transcript_def reaches_recognition_def None Inr False
                   split: option.splits sum.splits)
      qed
    qed
  qed
qed

lemma cycle_effect:
  assumes "transcribe_and_generate_response c w = (r, w')"
  shows "(case transcript c of
            None \<Rightarrow> chat_history w' = chat_history w \<and> llm_calls w' = llm_calls w \<and> r = Normal
          | Some t \<Rightarrow>
             (case remove_audio c of
                Some e \<Rightarrow> chat_history w' = chat_history w @ [user_turn t]
                         \<and> llm_calls w' = llm_calls w \<and> r = Normal
              | None \<Rightarrow>
                 llm_calls w' = llm_calls w @ [sent (chat_history w @ [user_turn t])] \<and>
                 (case create c of
                    Inl e \<Rightarrow> r = Normal \<and> chat_history w' = chat_history w @ [user_turn t]
                  | Inr a \<Rightarrow>
                      r = RerunException \<and>
                      chat_history w'
                        = latest 50 (chat_history w @ [user_turn t, assistant_turn a]))))"
proof -
  obtain r1 w1 where tb: "try_block c w = (r1, w1)"
    by (cases "try_block c w")
  from assms tb have w': "chat_history w' = chat_history w1" "llm_calls w' = llm_calls w1"
    and r: "r = (case r1 of Raise e \<Rightarrow> Normal | _ \<Rightarrow> r1)"
    by (auto simp: transcribe_and_generate_response_def try_except_def split: control.splits)
  from try_block_effect [OF tb] show ?thesis
    unfolding w' r
    by (auto split: option.splits sum.splits control.splits)
qed

lemma cycle_effect':
  "(case transcript c of
      None \<Rightarrow> chat_history (snd (transcribe_and_generate_response c w)) = chat_history w
            \<and> llm_calls (snd (transcribe_and_generate_response c w)) = llm_calls w
            \<and> fst (transcribe_and_generate_response c w) = Normal
    | Some t \<Rightarrow>
       (case remove_audio c of
          Some e \<Rightarrow> chat_history (snd (transcribe_and_generate_response c w))
                     = chat_history w @ [user_turn t]
                   \<and> llm_calls (snd (transcribe_and_generate_response c w)) = llm_calls w
                   \<and> fst (transcribe_and_generate_response c w) = Normal
        | None \<Rightarrow>
           llm_calls (snd (transcribe_and_generate_response c w))
             = llm_calls w @ [sent (chat_history w @ [user_turn t])] \<and>
           (case create c of
              Inl e \<Rightarrow> fst (transcribe_and_generate_response c w) = Normal
                     \<and> chat_history (snd (transcribe_and_generate_response c w))
                         = chat_history w @ [user_turn t]
            | Inr a \<Rightarrow>
                fst (transcribe_and_generate_response c w) = RerunException \<and>
                chat_history (snd (transcribe_and_generate_response c w))
                  = latest 50 (chat_history w @ [user_turn t, assistant_turn a]))))"
  using cycle_effect [of c w "fst (transcribe_and_generate_response c w)"
                             "snd (transcribe_and_generate_response c w)"]
  by simp



section \<open>Several cycles\<close>

lemma latest_latest_append:
  "latest n (latest n xs @ ys) = latest n (xs @ ys)"
proof -
  have "length xs + length ys - (length xs - n + n) + (length xs - n)
          = length xs + length ys - n"
    by arith
  then show ?thesis
    by (simp add: latest_def)
qed

lemma length_latest: "length (latest n xs) = min (length xs) n"
  by (simp add: latest_def)

lemma completes_history:
  "completes c u a \<Longrightarrow>
     chat_history (snd (transcribe_and_generate_response c w))
       = latest 50 (chat_history w @ [user_turn u, assistant_turn a])"
  using cycle_effect' [of c w] by (simp add: completes_def)

lemma run_cycles_completes:
  "list_all2 (\<lambda>c p. completes c (fst p) (snd p)) cs ps \<Longrightarrow>
     chat_history (run_cycles cs w) =
       (if cs = [] then chat_history w
        else latest 50 (chat_history w @ concat (map exchange_turns ps)))"
proof (induction cs ps arbitrary: w rule: list_all2_induct)
  case Nil
  then show ?case by simp
next
  case (Cons c cs p ps)
  have "list_all2 (\<lambda>c p. completes c (fst p) (snd p)) cs ps" by fact
  then have e: "cs = [] \<longleftrightarrow> ps = []" by (auto dest: list_all2_lengthD)
  show ?case
    using Cons.IH [of "snd (transcribe_and_generate_response c w)"] e
    by (simp add: completes_history [OF Cons.hyps(1)] exchange_turns_def [of p]
          latest_latest_append)
qed

lemma run_cycles_append: "run_cycles (cs @ ds) w = run_cycles ds (run_cycles cs w)"
  by (induction cs arbitrary: w) simp_all

lemma completes_exchange: "completes (exchange i) (fst (exchange_texts i)) (snd (exchange_texts i))"
  by (simp add: completes_def exchange_def answering_def transcript_def reaches_recognition_def)

lemma exchanges_complete:
  "list_all2 (\<lambda>c p. completes c (fst p) (snd p)) (map exchange ns) (map exchange_texts ns)"
  by (simp add: list_all2_map1 list_all2_map2 list_all2_same completes_exchange)

lemma length_concat_exchange_turns: "length (concat (map exchange_turns ps)) = 2 * length ps"
  by (induction ps) (simp_all add: exchange_turns_def)

section \<open>The trim\<close>

text \<open>
  C8. When the history is longer than the cap, \<^verbatim>\<open>limit_history\<close> discards only the oldest
  entries and keeps the others in their order: the history falls into the discarded front
  part and the kept part, and the kept part is the suffix of length
  \<^verbatim>\<open>MAX_HISTORY_LENGTH\<close> of the history before the trim.
\<close>

theorem limit_history_keeps_newest:
  assumes "int (length (chat_history s)) > MAX_HISTORY_LENGTH"
  shows "chat_history (limit_history s) = latest (nat MAX_HISTORY_LENGTH) (chat_history s)
       \<and> suffix (chat_history (limit_history s)) (chat_history s)
       \<and> int (length (chat_history (limit_history s))) = MAX_HISTORY_LENGTH
       \<and> take (length (chat_history s) - nat MAX_HISTORY_LENGTH) (chat_history s)
           @ chat_history (limit_history s) = chat_history s"
proof -
  have n: "nat MAX_HISTORY_LENGTH = 50"
    by (simp add: MAX_HISTORY_LENGTH_def)
  have l: "50 < length (chat_history s)"
    using assms by (simp add: MAX_HISTORY_LENGTH_def)
  have "suffix (drop (length (chat_history s) - 50) (chat_history s)) (chat_history s)"
    by (rule suffix_drop)
  with l show ?thesis
    by (simp add: chat_history_limit_history latest_def n) (simp add: MAX_HISTORY_LENGTH_def)
qed

theorem limit_history_keeps_newest_witness:
  "int (length (chat_history fifty_one_turns)) > MAX_HISTORY_LENGTH
   \<and> chat_history (limit_history fifty_one_turns)
       = latest (nat MAX_HISTORY_LENGTH) (chat_history fifty_one_turns)
   \<and> suffix (chat_history (limit_history fifty_one_turns)) (chat_history fifty_one_turns)
   \<and> int (length (chat_history (limit_history fifty_one_turns))) = MAX_HISTORY_LENGTH"
proof -
  have h: "int (length (chat_history fifty_one_turns)) > MAX_HISTORY_LENGTH"
    by (simp add: fifty_one_turns_def MAX_HISTORY_LENGTH_def)
  from limit_history_keeps_newest [OF h] h show ?thesis
    by blast
qed

text \<open>
  C10. \<^verbatim>\<open>limit_history\<close> leaves a history of at most \<^verbatim>\<open>MAX_HISTORY_LENGTH\<close> entries as it
  is, and applying it twice gives the same as applying it once.
\<close>

theorem limit_history_idempotent:
  "(int (length (chat_history s)) \<le> MAX_HISTORY_LENGTH \<longrightarrow> limit_history s = s)
   \<and> limit_history (limit_history s) = limit_history s"
proof -
  have "int (length (chat_history (limit_history s))) \<le> MAX_HISTORY_LENGTH"
    by (simp add: length_limit_history MAX_HISTORY_LENGTH_def)
  then have "limit_history (limit_history s) = limit_history s"
    unfolding limit_history_def [of "limit_history s"] by simp
  then show ?thesis
    by (simp add: limit_history_def)
qed

theorem limit_history_idempotent_witness:
  "int (length (chat_history two_turns)) \<le> MAX_HISTORY_LENGTH
   \<and> limit_history two_turns = two_turns
   \<and> limit_history (limit_history two_turns) = limit_history two_turns"
proof -
  have h: "int (length (chat_history two_turns)) \<le> MAX_HISTORY_LENGTH"
    by (simp add: two_turns_def MAX_HISTORY_LENGTH_def)
  show ?thesis
    using h limit_history_idempotent [of two_turns] by simp
qed

section \<open>The bound on the history\<close>

text \<open>
  C1, as the code has it. \<^verbatim>\<open>limit_history\<close> leaves at most \<^verbatim>\<open>MAX_HISTORY_LENGTH\<close>
  entries, and when the history was longer it drops entries from the front until exactly
  that many are left. A cycle that goes through appends the user turn and the assistant
  turn and trims once, after the second append; after every such cycle, whatever the
  history was before, its length is at most \<^verbatim>\<open>MAX_HISTORY_LENGTH\<close>.
\<close>

theorem history_within_cap_after_trim:
  "int (length (chat_history (limit_history s))) \<le> MAX_HISTORY_LENGTH
   \<and> (int (length (chat_history s)) > MAX_HISTORY_LENGTH \<longrightarrow>
        int (length (chat_history (limit_history s))) = MAX_HISTORY_LENGTH
        \<and> suffix (chat_history (limit_history s)) (chat_history s))
   \<and> (completes c u a \<longrightarrow>
        chat_history (snd (transcribe_and_generate_response c w))
          = chat_history (limit_history
              (append_history (assistant_turn a) (append_history (user_turn u) w)))
        \<and> fst (transcribe_and_generate_response c w) = RerunException
        \<and> int (length (chat_history (snd (transcribe_and_generate_response c w))))
            \<le> MAX_HISTORY_LENGTH)"
proof -
  have 1: "int (length (chat_history (limit_history s))) \<le> MAX_HISTORY_LENGTH"
    by (simp add: length_limit_history MAX_HISTORY_LENGTH_def)
  have "suffix (drop (length (chat_history s) - 50) (chat_history s)) (chat_history s)"
    by (rule suffix_drop)
  then have 2: "int (length (chat_history s)) > MAX_HISTORY_LENGTH \<longrightarrow>
        int (length (chat_history (limit_history s))) = MAX_HISTORY_LENGTH
        \<and> suffix (chat_history (limit_history s)) (chat_history s)"
    by (simp add: chat_history_limit_history MAX_HISTORY_LENGTH_def)
  have 3: "chat_history (snd (transcribe_and_generate_response c w))
          = chat_history (limit_history
              (append_history (assistant_turn a) (append_history (user_turn u) w)))
        \<and> fst (transcribe_and_generate_response c w) = RerunException
        \<and> int (length (chat_history (snd (transcribe_and_generate_response c w))))
            \<le> MAX_HISTORY_LENGTH" if "completes c u a"
    using that cycle_effect' [of c w]
    by (simp add: completes_def chat_history_limit_history latest_def MAX_HISTORY_LENGTH_def)
  from 1 2 3 show ?thesis by blast
qed

theorem history_within_cap_after_trim_witness:
  "int (length (chat_history fifty_one_turns)) > MAX_HISTORY_LENGTH
   \<and> int (length (chat_history (limit_history fifty_one_turns))) = MAX_HISTORY_LENGTH
   \<and> completes (exchange 0) (fst (exchange_texts 0)) (snd (exchange_texts 0))
   \<and> int (length (chat_history
            (snd (transcribe_and_generate_response (exchange 0) fifty_one_turns))))
       \<le> MAX_HISTORY_LENGTH"
proof -
  have h: "int (length (chat_history fifty_one_turns)) > MAX_HISTORY_LENGTH"
    by (simp add: fifty_one_turns_def MAX_HISTORY_LENGTH_def)
  note c = completes_exchange [of 0]
  from h c history_within_cap_after_trim [of fifty_one_turns "exchange 0"
        "fst (exchange_texts 0)" "snd (exchange_texts 0)" fifty_one_turns]
  show ?thesis
    by blast
qed

text \<open>
  C1 as stated fails. Twenty-five cycles that go through fill the history of a new
  session to the cap; a further cycle whose language-model call fails leaves 51 entries,
  because the user turn is appended without a trim. In a further cycle that goes through,
  the request goes out with the 51 entries behind the system message.
\<close>

theorem history_exceeds_cap_counterexample:
  "length (chat_history
     (run_cycles (map exchange [0..<25] @ [generation_fails]) initial_world)) = 51
   \<and> \<not> int (length (chat_history
          (run_cycles (map exchange [0..<25] @ [generation_fails]) initial_world)))
        \<le> MAX_HISTORY_LENGTH
   \<and> length (messages (last (llm_calls
        (run_cycles (map exchange [0..<25] @ [exchange 25]) initial_world)))) = 52"
proof -
  let ?w = "run_cycles (map exchange [0..<25]) initial_world"
  have "chat_history initial_world = []"
    by (simp add: initial_world_def)
  then have h: "chat_history ?w
          = latest 50 (concat (map exchange_turns (map exchange_texts [0..<25])))"
    using run_cycles_completes [OF exchanges_complete, of "[0..<25]" initial_world]
    by simp
  have l: "length (chat_history ?w) = 50"
    unfolding h length_latest length_concat_exchange_turns by simp
  have t: "transcript generation_fails = Some (ustr ''hello'')"
    "remove_audio generation_fails = None"
    "create generation_fails = Inl (OtherException (ustr ''503''))"
    by (simp_all add: generation_fails_def answering_def transcript_def
          reaches_recognition_def)
  have "chat_history (snd (transcribe_and_generate_response generation_fails ?w))
          = chat_history ?w @ [user_turn (ustr ''hello'')]"
    using cycle_effect' [of generation_fails ?w] by (simp add: t)
  then have 1: "length (chat_history
     (run_cycles (map exchange [0..<25] @ [generation_fails]) initial_world)) = 51"
    by (simp add: run_cycles_append l)
  have e: "transcript (exchange 25) = Some [51]" "remove_audio (exchange 25) = None"
    using completes_exchange [of 25] by (simp_all add: completes_def exchange_texts_def)
  have "llm_calls (snd (transcribe_and_generate_response (exchange 25) ?w))
          = llm_calls ?w @ [sent (chat_history ?w @ [user_turn [51]])]"
    using cycle_effect' [of "exchange 25" ?w] by (simp add: e)
  then have 2: "length (messages (last (llm_calls
        (run_cycles (map exchange [0..<25] @ [exchange 25]) initial_world)))) = 52"
    by (simp add: run_cycles_append sent_def l)
  from 1 2 show ?thesis
    by (simp add: MAX_HISTORY_LENGTH_def)
qed

text \<open>
  C2. From an empty history, 51 cycles that go through, each appending its user turn and
  its assistant turn and then trimming, leave exactly 50 entries: the turns 53 to 102 of
  the 102 turns appended, in their order.
\<close>

theorem fifty_one_exchanges_keep_latest_fifty:
  assumes "chat_history w = []"
    and "length ps = 51"
    and "list_all2 (\<lambda>c p. completes c (fst p) (snd p)) cs ps"
  shows "chat_history (run_cycles cs w) = drop 52 (concat (map exchange_turns ps))
       \<and> length (concat (map exchange_turns ps)) = 102
       \<and> length (chat_history (run_cycles cs w)) = 50"
proof -
  have "length cs = 51"
    using assms(2,3) by (auto dest: list_all2_lengthD)
  then have "cs \<noteq> []" by auto
  then have "chat_history (run_cycles cs w) = latest 50 (concat (map exchange_turns ps))"
    using run_cycles_completes [OF assms(3), of w] assms(1) by simp
  then show ?thesis
    by (simp add: latest_def length_concat_exchange_turns assms(2))
qed

theorem fifty_one_exchanges_keep_latest_fifty_witness:
  "chat_history initial_world = []
   \<and> length (map exchange_texts [0..<51]) = 51
   \<and> chat_history (run_cycles (map exchange [0..<51]) initial_world)
       = drop 52 (concat (map exchange_turns (map exchange_texts [0..<51])))
   \<and> length (chat_history (run_cycles (map exchange [0..<51]) initial_world)) = 50"
proof -
  have 1: "chat_history initial_world = []"
    by (simp add: initial_world_def)
  have 2: "length (map exchange_texts [0..<51]) = 51"
    by simp
  from 1 2 fifty_one_exchanges_keep_latest_fifty [OF 1 2 exchanges_complete]
  show ?thesis
    by blast
qed

section \<open>Failures inside a cycle\<close>

lemma except_clauses_not_Nil: "except_clauses c e \<noteq> []"
  by (cases e) simp_all

lemma transcript_SomeD:
  assumes "transcript c = Some t"
  obtains audio_data where "Microphone c = None" and "listen c = Inr audio_data"
    and "audio_data \<noteq> []" and "open_wb c = None" and "file_write c = None"
    and "recognize_google c = Inr t"
  using assms
  by (auto simp: transcript_def reaches_recognition_def split: if_splits sum.splits)

lemma reaches_recognitionD:
  assumes "reaches_recognition c"
  obtains audio_data where "Microphone c = None" and "listen c = Inr audio_data"
    and "audio_data \<noteq> []" and "open_wb c = None" and "file_write c = None"
  using assms
  by (auto simp: reaches_recognition_def split: sum.splits)

lemma shown_cycle:
  "shown (snd (transcribe_and_generate_response c w))
     = shown (snd (try_except c w)) @ cleanup_reports c (temp_dir (snd (try_except c w)))"
  by (simp add: transcribe_and_generate_response_def shown_cleanup_old_files split: prod.splits)

lemma shown_generate_speech:
  "\<exists>ms. shown (snd (generate_speech c t f w)) = shown w @ ms"
  by (simp add: generate_speech_def Let_def split: option.splits exn.splits)

lemma shown_play_audio:
  "\<exists>ms. shown (snd (play_audio c w)) = shown w @ ms"
  by (simp add: play_audio_def split: option.splits exn.splits)

lemma shown_speak: "\<exists>ms. shown (speak c t w) = shown w @ ms"
proof -
  let ?f = "ustr ''tts_'' @ uuid4_tts c @ ustr ''.mp3''"
  obtain ok w1 where g: "generate_speech c t ?f w = (ok, w1)"
    by (cases "generate_speech c t ?f w")
  obtain r w2 where p: "play_audio c w1 = (r, w2)"
    by (cases "play_audio c w1")
  obtain ms1 where 1: "shown w1 = shown w @ ms1"
    using shown_generate_speech [of c t ?f w] g by auto
  obtain ms2 where 2: "shown w2 = shown w1 @ ms2"
    using shown_play_audio [of c w1] p by auto
  show ?thesis
    by (simp add: speak_def Let_def g p 1 2 speak_except_def split: option.splits)
qed

lemma shown_process_audio: "shown (snd (process_audio c w)) = shown w"
  by (simp add: process_audio_def Let_def split: option.splits sum.splits)

lemma process_audio_not_Rerun: "fst (process_audio c w) \<noteq> RerunException"
  by (simp add: process_audio_def Let_def split: option.splits sum.splits)

lemma generate_response_not_Normal: "fst (generate_response c w) \<noteq> Normal"
  by (simp add: generate_response_def Let_def split: sum.splits)

lemma shown_generate_response: "\<exists>ms. shown (snd (generate_response c w)) = shown w @ ms"
proof (cases "create c")
  case (Inl e)
  then show ?thesis by (simp add: generate_response_def Let_def)
next
  case (Inr a)
  obtain ms where "shown (speak c a (limit_history (append_history
      \<lparr>role = ustr ''assistant'', content = a\<rparr> (w\<lparr>llm_calls := llm_calls w
        @ [\<lparr>messages = [system_message] @ chat_history w, model = LLM_MODEL,
            max_tokens = MAX_TOKENS, temperature = TEMPERATURE\<rparr>]\<rparr>))))
      = shown w @ ms"
    using shown_speak [of c a "limit_history (append_history
      \<lparr>role = ustr ''assistant'', content = a\<rparr> (w\<lparr>llm_calls := llm_calls w
        @ [\<lparr>messages = [system_message] @ chat_history w, model = LLM_MODEL,
            max_tokens = MAX_TOKENS, temperature = TEMPERATURE\<rparr>]\<rparr>))"]
    by auto
  with Inr show ?thesis by (simp add: generate_response_def Let_def)
qed

text \<open>Every way out of the cycle other than the rerun shows a message.\<close>

lemma try_block_reports:
  "\<exists>ms. shown (snd (try_block c w)) = shown w @ ms
        \<and> (fst (try_block c w) = Normal \<longrightarrow> ms \<noteq> [])"
proof (cases "Microphone c")
  case (Some e)
  then show ?thesis by (simp add: try_block_def)
next
  case None
  let ?w1 = "report [st_write (ustr ''Please speak something...'')] w"
  show ?thesis
  proof (cases "listen c")
    case (Inl e)
    with None show ?thesis
      by (cases e) (simp_all add: try_block_def Let_def)
  next
    case (Inr audio_data)
    show ?thesis
    proof (cases "audio_data = []")
      case True
      with None Inr show ?thesis
        by (simp add: try_block_def Let_def)
    next
      case False
      obtain r1 w1' where pa: "process_audio c ?w1 = (r1, w1')"
        by (cases "process_audio c ?w1")
      have s: "shown w1' = shown w @ [st_write (ustr ''Please speak something...'')]"
        using shown_process_audio [of c ?w1] pa by simp
      have nr: "r1 \<noteq> RerunException"
        using process_audio_not_Rerun [of c ?w1] pa by simp
      show ?thesis
      proof (cases r1)
        case Normal
        obtain ms where "shown (snd (generate_response c w1')) = shown w1' @ ms"
          using shown_generate_response by blast
        with None Inr False pa Normal s generate_response_not_Normal [of c w1']
        show ?thesis
          by (simp add: try_block_def Let_def)
      next
        case (Raise e)
        with None Inr False pa s show ?thesis
          by (simp add: try_block_def Let_def)
      next
        case RerunException
        with nr show ?thesis by simp
      qed
    qed
  qed
qed

lemma cycle_reports:
  assumes "fst (transcribe_and_generate_response c w) = Normal"
  shows "\<exists>ms. ms \<noteq> [] \<and> shown (snd (transcribe_and_generate_response c w)) = shown w @ ms"
proof -
  obtain r1 w1 where tb: "try_block c w = (r1, w1)"
    by (cases "try_block c w")
  obtain ms where ms: "shown w1 = shown w @ ms" "r1 = Normal \<longrightarrow> ms \<noteq> []"
    using try_block_reports [of c w] tb by auto
  show ?thesis
  proof (cases r1)
    case Normal
    with tb ms show ?thesis
      by (simp add: shown_cycle try_except_def)
  next
    case (Raise e)
    with tb ms show ?thesis
      by (simp add: shown_cycle try_except_def except_clauses_not_Nil)
  next
    case RerunException
    with tb assms show ?thesis
      by (simp add: transcribe_and_generate_response_def try_except_def)
  qed
qed

lemma try_except_generation_fails:
  assumes "transcript c = Some t" and "remove_audio c = None" and "create c = Inl e"
  shows "shown (snd (try_except c w))
           = shown w @ [st_write (ustr ''Please speak something...'')] @ except_clauses c e"
proof -
  from assms(1) obtain audio_data where "Microphone c = None" "listen c = Inr audio_data"
    "audio_data \<noteq> []" "open_wb c = None" "file_write c = None" "recognize_google c = Inr t"
    by (rule transcript_SomeD)
  with assms(2,3) show ?thesis
    by (simp add: try_except_def try_block_def process_audio_def generate_response_def Let_def)
qed

lemma try_except_listen_timeout:
  assumes "Microphone c = None" and "listen c = Inl (WaitTimeoutError m)"
  shows "shown (snd (try_except c w))
           = shown w @ [st_write (ustr ''Please speak something...''),
                        st_warning (ustr ''No speech detected. Please try again.'')]"
    and "transcript c = None"
  using assms
  by (simp_all add: try_except_def try_block_def Let_def transcript_def reaches_recognition_def)

lemma try_except_recognition_fails:
  assumes "reaches_recognition c" and "recognize_google c = Inl e" and "remove_audio c = None"
  shows "shown (snd (try_except c w))
           = shown w @ [st_write (ustr ''Please speak something...'')] @ except_clauses c e"
    and "transcript c = None"
proof -
  from assms(1) obtain audio_data where "Microphone c = None" "listen c = Inr audio_data"
    "audio_data \<noteq> []" "open_wb c = None" "file_write c = None"
    by (rule reaches_recognitionD)
  with assms(2,3) show "shown (snd (try_except c w))
           = shown w @ [st_write (ustr ''Please speak something...'')] @ except_clauses c e"
    by (simp add: try_except_def try_block_def process_audio_def Let_def)
  show "transcript c = None"
    using assms(1,2) by (simp add: transcript_def)
qed

lemma try_except_recognition_fails_transcript:
  assumes "reaches_recognition c" and "recognize_google c = Inl e"
  shows "transcript c = None"
  using assms by (simp add: transcript_def)

text \<open>
  C3. When the language-model call raises after the user turn was appended, the history
  is the one before the cycle with that user turn at its end; the matching handler shows
  the error, and the function returns in the normal way.
\<close>

theorem generation_failure_keeps_user_turn:
  assumes "transcript c = Some t" and "remove_audio c = None" and "create c = Inl e"
  shows "chat_history (snd (transcribe_and_generate_response c w))
           = chat_history w @ [user_turn t]
       \<and> fst (transcribe_and_generate_response c w) = Normal
       \<and> shown (snd (transcribe_and_generate_response c w))
           = shown w @ [st_write (ustr ''Please speak something...'')] @ except_clauses c e
             @ cleanup_reports c (temp_dir (snd (try_except c w)))
       \<and> except_clauses c e \<noteq> []"
  using cycle_effect' [of c w] try_except_generation_fails [OF assms, of w]
  by (simp add: assms shown_cycle except_clauses_not_Nil)

theorem generation_failure_keeps_user_turn_witness:
  "chat_history (snd (transcribe_and_generate_response generation_fails two_turns))
     = chat_history two_turns @ [user_turn (ustr ''hello'')]
   \<and> fst (transcribe_and_generate_response generation_fails two_turns) = Normal
   \<and> except_clauses generation_fails (OtherException (ustr ''503''))
       = [st_error (ustr ''An error occurred: '' @ ustr ''503''),
          st_error (ustr ''Traceback (most recent call last):'')]"
proof -
  have t: "transcript generation_fails = Some (ustr ''hello'')"
    "remove_audio generation_fails = None"
    "create generation_fails = Inl (OtherException (ustr ''503''))"
    by (simp_all add: generation_fails_def answering_def transcript_def
          reaches_recognition_def)
  have "except_clauses generation_fails (OtherException (ustr ''503''))
       = [st_error (ustr ''An error occurred: '' @ ustr ''503''),
          st_error (ustr ''Traceback (most recent call last):'')]"
    by (simp add: generation_fails_def answering_def)
  with generation_failure_keeps_user_turn [OF t, of two_turns] show ?thesis
    by blast
qed

text \<open>
  C4. A cycle that fails before the transcription succeeds leaves the history as it was,
  sends nothing to the language model, shows at least one message and returns in the
  normal way. In particular: when listening times out, the warning that no speech was
  detected is shown; when the transcription service cannot be reached or the audio is not
  understood, the error of the matching handler is shown.
\<close>

theorem failure_before_transcription_leaves_history:
  "(transcript c = None \<longrightarrow>
      chat_history (snd (transcribe_and_generate_response c w)) = chat_history w
      \<and> llm_calls (snd (transcribe_and_generate_response c w)) = llm_calls w
      \<and> fst (transcribe_and_generate_response c w) = Normal
      \<and> (\<exists>ms. ms \<noteq> [] \<and> shown (snd (transcribe_and_generate_response c w)) = shown w @ ms))
   \<and> (Microphone c = None \<and> listen c = Inl (WaitTimeoutError m) \<longrightarrow>
        transcript c = None
        \<and> shown (snd (transcribe_and_generate_response c w))
            = shown w @ [st_write (ustr ''Please speak something...''),
                         st_warning (ustr ''No speech detected. Please try again.'')]
              @ cleanup_reports c (temp_dir (snd (try_except c w))))
   \<and> (reaches_recognition c \<and> recognize_google c = Inl (RequestError m)
        \<and> remove_audio c = None \<longrightarrow>
        transcript c = None
        \<and> shown (snd (transcribe_and_generate_response c w))
            = shown w @ [st_write (ustr ''Please speak something...''),
                         st_error (ustr ''Could not request results: '' @ m)]
              @ cleanup_reports c (temp_dir (snd (try_except c w))))
   \<and> (reaches_recognition c \<and> recognize_google c = Inl (UnknownValueError m)
        \<and> remove_audio c = None \<longrightarrow>
        transcript c = None
        \<and> shown (snd (transcribe_and_generate_response c w))
            = shown w @ [st_write (ustr ''Please speak something...''),
                         st_error (ustr ''Could not understand audio. Please try again.'')]
              @ cleanup_reports c (temp_dir (snd (try_except c w))))"
proof -
  have 1: "chat_history (snd (transcribe_and_generate_response c w)) = chat_history w
      \<and> llm_calls (snd (transcribe_and_generate_response c w)) = llm_calls w
      \<and> fst (transcribe_and_generate_response c w) = Normal
      \<and> (\<exists>ms. ms \<noteq> [] \<and> shown (snd (transcribe_and_generate_response c w)) = shown w @ ms)"
    if "transcript c = None"
  proof -
    from that cycle_effect' [of c w]
    have e: "chat_history (snd (transcribe_and_generate_response c w)) = chat_history w"
      "llm_calls (snd (transcribe_and_generate_response c w)) = llm_calls w"
      "fst (transcribe_and_generate_response c w) = Normal"
      by simp_all
    from cycle_reports [OF e(3)] e show ?thesis by blast
  qed
  have 2: "transcript c = None
        \<and> shown (snd (transcribe_and_generate_response c w))
            = shown w @ [st_write (ustr ''Please speak something...''),
                         st_warning (ustr ''No speech detected. Please try again.'')]
              @ cleanup_reports c (temp_dir (snd (try_except c w)))"
    if "Microphone c = None" "listen c = Inl (WaitTimeoutError m)"
    using try_except_listen_timeout(1) [OF that, of w] try_except_listen_timeout(2) [OF that]
    by (simp add: shown_cycle)
  have 3: "transcript c = None
        \<and> shown (snd (transcribe_and_generate_response c w))
            = shown w @ [st_write (ustr ''Please speak something...'')] @ except_clauses c e
              @ cleanup_reports c (temp_dir (snd (try_except c w)))"
    if "reaches_recognition c" "recognize_google c = Inl e" "remove_audio c = None" for e
    using try_except_recognition_fails(1) [OF that, of w]
      try_except_recognition_fails_transcript [OF that(1,2)]
    by (simp add: shown_cycle)
  from 1 2 3 [of "RequestError m"] 3 [of "UnknownValueError m"] show ?thesis
    by simp
qed

theorem failure_before_transcription_leaves_history_witness:
  "chat_history (snd (transcribe_and_generate_response no_speech two_turns))
     = chat_history two_turns
   \<and> chat_history (snd (transcribe_and_generate_response service_down two_turns))
     = chat_history two_turns
   \<and> chat_history (snd (transcribe_and_generate_response unintelligible two_turns))
     = chat_history two_turns
   \<and> shown (snd (transcribe_and_generate_response no_speech two_turns))
       = shown two_turns @ [st_write (ustr ''Please speak something...''),
                            st_warning (ustr ''No speech detected. Please try again.'')]
         @ cleanup_reports no_speech (temp_dir (snd (try_except no_speech two_turns)))
   \<and> shown (snd (transcribe_and_generate_response service_down two_turns))
       = shown two_turns @ [st_write (ustr ''Please speak something...''),
                            st_error (ustr ''Could not request results: ''
                                      @ ustr ''connection failed'')]
         @ cleanup_reports service_down (temp_dir (snd (try_except service_down two_turns)))
   \<and> shown (snd (transcribe_and_generate_response unintelligible two_turns))
       = shown two_turns @ [st_write (ustr ''Please speak something...''),
                            st_error (ustr ''Could not understand audio. Please try again.'')]
         @ cleanup_reports unintelligible
             (temp_dir (snd (try_except unintelligible two_turns)))"
proof -
  have a: "Microphone no_speech = None"
    "listen no_speech = Inl (WaitTimeoutError (ustr ''listening timed out''))"
    by (simp_all add: no_speech_def answering_def)
  have b: "reaches_recognition service_down"
    "recognize_google service_down = Inl (RequestError (ustr ''connection failed''))"
    "remove_audio service_down = None"
    by (simp_all add: service_down_def answering_def reaches_recognition_def)
  have c: "reaches_recognition unintelligible"
    "recognize_google unintelligible = Inl (UnknownValueError [])"
    "remove_audio unintelligible = None"
    by (simp_all add: unintelligible_def answering_def reaches_recognition_def)
  note A = failure_before_transcription_leaves_history
         [of no_speech two_turns "ustr ''listening timed out''"]
  note B = failure_before_transcription_leaves_history
         [of service_down two_turns "ustr ''connection failed''"]
  note C = failure_before_transcription_leaves_history [of unintelligible two_turns "[]"]
  from A a have A': "transcript no_speech = None"
    "shown (snd (transcribe_and_generate_response no_speech two_turns))
       = shown two_turns @ [st_write (ustr ''Please speak something...''),
                            st_warning (ustr ''No speech detected. Please try again.'')]
         @ cleanup_reports no_speech (temp_dir (snd (try_except no_speech two_turns)))"
    by simp_all
  from B b have B': "transcript service_down = None"
    "shown (snd (transcribe_and_generate_response service_down two_turns))
       = shown two_turns @ [st_write (ustr ''Please speak something...''),
                            st_error (ustr ''Could not request results: ''
                                      @ ustr ''connection failed'')]
         @ cleanup_reports service_down (temp_dir (snd (try_except service_down two_turns)))"
    by simp_all
  from C c have C': "transcript unintelligible = None"
    "shown (snd (transcribe_and_generate_response unintelligible two_turns))
       = shown two_turns @ [st_write (ustr ''Please speak something...''),
                            st_error (ustr ''Could not understand audio. Please try again.'')]
         @ cleanup_reports unintelligible
             (temp_dir (snd (try_except unintelligible two_turns)))"
    by simp_all
  from A A'(1) have A'': "chat_history (snd (transcribe_and_generate_response no_speech two_turns))
     = chat_history two_turns"
    by simp
  from B B'(1) have B'': "chat_history (snd (transcribe_and_generate_response service_down two_turns))
     = chat_history two_turns"
    by simp
  from C C'(1) have C'': "chat_history (snd (transcribe_and_generate_response unintelligible two_turns))
     = chat_history two_turns"
    by simp
  from A'' B'' C'' A'(2) B'(2) C'(2) show ?thesis
    by (intro conjI)
qed

section \<open>The temporary files\<close>





section \<open>The request to the language model\<close>

lemma role_literals:
  "ustr ''user'' \<noteq> ustr ''system''" "ustr ''assistant'' \<noteq> ustr ''system''"
  by (simp_all add: ustr_def)

lemma conversation_no_system:
  "conversation h \<Longrightarrow> filter (\<lambda>m. role m = ustr ''system'') h = []"
  by (induction h) (auto simp: conversation_def role_literals)

lemma conversation_append:
  "conversation (h @ k) \<longleftrightarrow> conversation h \<and> conversation k"
  by (simp add: conversation_def)

lemma conversation_turns:
  "conversation [user_turn t]" "conversation [assistant_turn a]"
  "conversation [user_turn t, assistant_turn a]"
  by (simp_all add: conversation_def user_turn_def assistant_turn_def)

lemma conversation_latest: "conversation h \<Longrightarrow> conversation (latest n h)"
  unfolding conversation_def latest_def list_all_iff
  by (meson in_set_dropD)

text \<open>
  C7. Whenever the cycle calls the language model, it does so once, with the request made
  of the fixed system message first, then the whole history as it is at that moment, the
  user turn just appended at its end, and with \<^verbatim>\<open>Config.LLM_MODEL\<close>,
  \<^verbatim>\<open>Config.MAX_TOKENS\<close> and \<^verbatim>\<open>Config.TEMPERATURE\<close>. The system message occurs once in
  it, since a history holds user and assistant turns only, which every cycle preserves. A
  cycle that does not get that far sends nothing.
\<close>

theorem prompt_is_system_message_then_history:
  "(transcript c = Some t \<and> remove_audio c = None \<longrightarrow>
      llm_calls (snd (transcribe_and_generate_response c w))
        = llm_calls w
          @ [\<lparr>messages = system_message # chat_history w @ [user_turn t],
              model = LLM_MODEL, max_tokens = MAX_TOKENS, temperature = TEMPERATURE\<rparr>]
      \<and> (conversation (chat_history w) \<longrightarrow>
           filter (\<lambda>m. role m = ustr ''system'')
             (system_message # chat_history w @ [user_turn t]) = [system_message]))
   \<and> (transcript c = None \<or> remove_audio c \<noteq> None \<longrightarrow>
        llm_calls (snd (transcribe_and_generate_response c w)) = llm_calls w)
   \<and> (conversation (chat_history w) \<longrightarrow>
        conversation (chat_history (snd (transcribe_and_generate_response c w))))"
proof -
  note e = cycle_effect' [of c w]
  have 1: "llm_calls (snd (transcribe_and_generate_response c w))
        = llm_calls w
          @ [\<lparr>messages = system_message # chat_history w @ [user_turn t],
              model = LLM_MODEL, max_tokens = MAX_TOKENS, temperature = TEMPERATURE\<rparr>]"
    if "transcript c = Some t" "remove_audio c = None"
    using e that by (simp add: sent_def)
  have 2: "filter (\<lambda>m. role m = ustr ''system'')
             (system_message # chat_history w @ [user_turn t]) = [system_message]"
    if "conversation (chat_history w)"
    using conversation_no_system [OF that] conversation_no_system [OF conversation_turns(1)]
    by (simp add: system_message_def)
  have 3: "llm_calls (snd (transcribe_and_generate_response c w)) = llm_calls w"
    if "transcript c = None \<or> remove_audio c \<noteq> None"
    using e that by (auto split: option.splits)
  have 4: "conversation (chat_history (snd (transcribe_and_generate_response c w)))"
    if "conversation (chat_history w)"
    using e that conversation_turns
    by (auto simp: conversation_append intro!: conversation_latest
             split: option.splits sum.splits)
  from 1 2 3 4 show ?thesis by blast
qed

theorem prompt_is_system_message_then_history_witness:
  "transcript generation_fails = Some (ustr ''hello'')
   \<and> remove_audio generation_fails = None
   \<and> conversation (chat_history two_turns)
   \<and> llm_calls (snd (transcribe_and_generate_response generation_fails two_turns))
       = llm_calls two_turns
         @ [\<lparr>messages = system_message # chat_history two_turns @ [user_turn (ustr ''hello'')],
             model = LLM_MODEL, max_tokens = MAX_TOKENS, temperature = TEMPERATURE\<rparr>]
   \<and> filter (\<lambda>m. role m = ustr ''system'')
        (system_message # chat_history two_turns @ [user_turn (ustr ''hello'')])
       = [system_message]"
proof -
  have t: "transcript generation_fails = Some (ustr ''hello'')"
    "remove_audio generation_fails = None"
    by (simp_all add: generation_fails_def answering_def transcript_def
          reaches_recognition_def)
  have c: "conversation (chat_history two_turns)"
    by (simp add: two_turns_def conversation_def user_turn_def assistant_turn_def)
  from t c prompt_is_system_message_then_history
             [of generation_fails "ustr ''hello''" two_turns]
  show ?thesis
    by blast
qed

section \<open>The voice picker\<close>

lemma list_index_Some_iff:
  "list_index xs v = Some i \<longleftrightarrow> i < length xs \<and> xs ! i = v \<and> (\<forall>j<i. xs ! j \<noteq> v)"
proof (induction xs arbitrary: i)
  case Nil
  then show ?case by simp
next
  case (Cons x xs)
  show ?case
  proof (cases "x = v")
    case True
    then show ?thesis by (cases i) auto
  next
    case False
    show ?thesis
    proof (cases i)
      case 0
      with False show ?thesis by (auto split: option.splits)
    next
      case (Suc k)
      have "(\<forall>j<Suc k. (x # xs) ! j \<noteq> v) \<longleftrightarrow> (\<forall>j<k. xs ! j \<noteq> v)"
        using False by (auto simp: less_Suc_eq_0_disj)
      with False Suc Cons.IH [of k] show ?thesis
        by (auto split: option.splits)
    qed
  qed
qed

lemma list_index_None_iff: "list_index xs v = None \<longleftrightarrow> v \<notin> set xs"
  by (induction xs) (auto split: option.splits)

lemma list_index_nth_distinct:
  "distinct xs \<Longrightarrow> i < length xs \<Longrightarrow> list_index xs (xs ! i) = Some i"
  by (auto simp: list_index_Some_iff nth_eq_iff_index_eq)

lemma default_idx_present:
  "DEFAULT_VOICE \<in> set names \<Longrightarrow>
     default_idx names < length names \<and> names ! default_idx names = DEFAULT_VOICE
     \<and> (\<forall>j < default_idx names. names ! j \<noteq> DEFAULT_VOICE)"
proof -
  assume "DEFAULT_VOICE \<in> set names"
  then obtain i where i: "list_index names DEFAULT_VOICE = Some i"
    using list_index_None_iff [of names DEFAULT_VOICE] by (cases "list_index names DEFAULT_VOICE") auto
  then show ?thesis
    using list_index_Some_iff [of names DEFAULT_VOICE i] by (simp add: default_idx_def)
qed

lemma default_idx_absent: "DEFAULT_VOICE \<notin> set names \<Longrightarrow> default_idx names = 0"
  by (simp add: default_idx_def list_index_None_iff [THEN iffD2])

lemma default_idx_in_range: "names \<noteq> [] \<Longrightarrow> default_idx names < length names"
  using default_idx_present [of names] default_idx_absent [of names]
  by (cases "DEFAULT_VOICE \<in> set names") auto

lemma selectbox_in_options:
  "index < length options \<Longrightarrow> selectbox options index picked \<in> set options"
  by (auto simp: selectbox_def split: option.splits)

lemma voice_picker_returns: "\<exists>w'. voice_picker picked w = Inr w'"
proof (cases "available_voices w = []")
  case True
  then show ?thesis by (simp add: voice_picker_def)
next
  case False
  let ?options = "map display (available_voices w)"
  let ?names = "map name (available_voices w)"
  let ?d = "selectbox ?options (default_idx ?names) picked"
  have "default_idx ?names < length ?options"
    using default_idx_in_range [of ?names] False by simp
  then have "?d \<in> set ?options"
    by (rule selectbox_in_options)
  then obtain i where i: "list_index ?options ?d = Some i"
    using list_index_None_iff [of ?options ?d] by (cases "list_index ?options ?d") auto
  then have "i < length ?names"
    using list_index_Some_iff [of ?options ?d i] by simp
  with False i show ?thesis
    by (simp add: voice_picker_def Let_def)
qed

lemma voice_picker_untouched:
  assumes "available_voices w \<noteq> []" and "distinct (map display (available_voices w))"
  shows "voice_picker None w
           = Inr (w\<lparr>selected_voice :=
                      map name (available_voices w) ! default_idx (map name (available_voices w))\<rparr>)"
proof -
  let ?options = "map display (available_voices w)"
  let ?names = "map name (available_voices w)"
  have r: "default_idx ?names < length ?options"
    using default_idx_in_range [of ?names] assms(1) by simp
  have "list_index ?options (?options ! default_idx ?names) = Some (default_idx ?names)"
    using assms(2) r by (rule list_index_nth_distinct)
  with assms(1) r show ?thesis
    by (simp add: voice_picker_def Let_def selectbox_def del: nth_map)
qed

text \<open>
  C9, as the code has it. The position handed to the select box is that of the first
  voice named \<^verbatim>\<open>Config.DEFAULT_VOICE\<close> when the catalogue has one, and 0, the first
  voice, otherwise; as long as the user picks nothing (and no two voices are displayed
  alike) that voice becomes the selected voice. With an empty catalogue the picker shows
  the warning that no voices are available, raises nothing and leaves the selected voice
  as it was: the hardcoded default id in a session that has just begun. The picker never
  raises.
\<close>

theorem voice_picker_falls_back:
  "(DEFAULT_VOICE \<in> set (map name vs) \<longrightarrow>
      default_idx (map name vs) < length vs
      \<and> map name vs ! default_idx (map name vs) = DEFAULT_VOICE)
   \<and> (DEFAULT_VOICE \<notin> set (map name vs) \<longrightarrow> default_idx (map name vs) = 0)
   \<and> (available_voices w \<noteq> [] \<and> distinct (map display (available_voices w)) \<longrightarrow>
        voice_picker None w
          = Inr (w\<lparr>selected_voice :=
                     (if DEFAULT_VOICE \<in> set (map name (available_voices w))
                      then DEFAULT_VOICE else name (hd (available_voices w)))\<rparr>))
   \<and> (available_voices w = [] \<longrightarrow>
        voice_picker picked w = Inr (report [st_warning (ustr ''No voices available'')] w)
        \<and> selected_voice (report [st_warning (ustr ''No voices available'')] w)
            = selected_voice w)
   \<and> voice_picker picked initial_world
       = Inr (report [st_warning (ustr ''No voices available'')] initial_world)
   \<and> selected_voice (report [st_warning (ustr ''No voices available'')] initial_world)
       = DEFAULT_VOICE
   \<and> (\<exists>w'. voice_picker picked w = Inr w')"
proof -
  have 1: "default_idx (map name vs) < length vs
      \<and> map name vs ! default_idx (map name vs) = DEFAULT_VOICE"
    if "DEFAULT_VOICE \<in> set (map name vs)"
    using default_idx_present [OF that] by simp
  have 2: "default_idx (map name vs) = 0" if "DEFAULT_VOICE \<notin> set (map name vs)"
    using that by (rule default_idx_absent)
  have 3: "voice_picker None w
          = Inr (w\<lparr>selected_voice :=
                     (if DEFAULT_VOICE \<in> set (map name (available_voices w))
                      then DEFAULT_VOICE else name (hd (available_voices w)))\<rparr>)"
    if "available_voices w \<noteq> []" "distinct (map display (available_voices w))"
  proof (cases "DEFAULT_VOICE \<in> set (map name (available_voices w))")
    case True
    with default_idx_present [OF True] voice_picker_untouched [OF that] show ?thesis
      by simp
  next
    case False
    with default_idx_absent [OF False] voice_picker_untouched [OF that] that(1)
    show ?thesis
      by (simp add: hd_conv_nth del: nth_map) (simp add: nth_map)
  qed
  have 4: "voice_picker picked w = Inr (report [st_warning (ustr ''No voices available'')] w)
        \<and> selected_voice (report [st_warning (ustr ''No voices available'')] w)
            = selected_voice w"
    if "available_voices w = []"
    using that by (simp add: voice_picker_def report_def)
  have 5: "voice_picker picked initial_world
       = Inr (report [st_warning (ustr ''No voices available'')] initial_world)"
    "selected_voice (report [st_warning (ustr ''No voices available'')] initial_world)
       = DEFAULT_VOICE"
    by (simp_all add: voice_picker_def report_def initial_world_def)
  from 1 2 3 4 5 voice_picker_returns [of picked w] show ?thesis
    by blast
qed

lemma voice_literals:
  "ustr ''en-GB-SoniaNeural'' \<noteq> DEFAULT_VOICE"
  "ustr ''de-DE-KatjaNeural'' \<noteq> DEFAULT_VOICE"
  "ustr ''en-GB - en-GB-SoniaNeural'' \<noteq> ustr ''en-US - en-US-JennyNeural''"
  "ustr ''en-GB - en-GB-SoniaNeural'' \<noteq> ustr ''de-DE - de-DE-KatjaNeural''"
  by (simp_all add: ustr_def DEFAULT_VOICE_def)

lemma available_voices_with_default:
  "available_voices with_default
     = [\<lparr>name = ustr ''en-GB-SoniaNeural'', display = ustr ''en-GB - en-GB-SoniaNeural''\<rparr>,
        \<lparr>name = DEFAULT_VOICE, display = ustr ''en-US - en-US-JennyNeural''\<rparr>]"
  by (simp add: with_default_def initialize_voices_def get_available_voices_def
        sonia_def jenny_def initial_world_def DEFAULT_VOICE_def ustr_def)

lemma available_voices_without_default:
  "available_voices without_default
     = [\<lparr>name = ustr ''en-GB-SoniaNeural'', display = ustr ''en-GB - en-GB-SoniaNeural''\<rparr>,
        \<lparr>name = ustr ''de-DE-KatjaNeural'', display = ustr ''de-DE - de-DE-KatjaNeural''\<rparr>]"
  by (simp add: without_default_def initialize_voices_def get_available_voices_def
        sonia_def katja_def initial_world_def ustr_def)

theorem voice_picker_falls_back_witness:
  "DEFAULT_VOICE \<in> set (map name (available_voices with_default))
   \<and> map name (available_voices with_default)
       ! default_idx (map name (available_voices with_default)) = DEFAULT_VOICE
   \<and> voice_picker None with_default = Inr (with_default\<lparr>selected_voice := DEFAULT_VOICE\<rparr>)
   \<and> DEFAULT_VOICE \<notin> set (map name (available_voices without_default))
   \<and> default_idx (map name (available_voices without_default)) = 0
   \<and> voice_picker None without_default
       = Inr (without_default\<lparr>selected_voice := ustr ''en-GB-SoniaNeural''\<rparr>)
   \<and> available_voices initial_world = []
   \<and> voice_picker None initial_world
       = Inr (report [st_warning (ustr ''No voices available'')] initial_world)"
proof -
  have a: "DEFAULT_VOICE \<in> set (map name (available_voices with_default))"
    "available_voices with_default \<noteq> []"
    "distinct (map display (available_voices with_default))"
    by (simp_all add: available_voices_with_default voice_literals)
  have b: "DEFAULT_VOICE \<notin> set (map name (available_voices without_default))"
    "available_voices without_default \<noteq> []"
    "distinct (map display (available_voices without_default))"
    "name (hd (available_voices without_default)) = ustr ''en-GB-SoniaNeural''"
    using voice_literals(1,2) [symmetric]
    by (simp_all add: available_voices_without_default voice_literals)
  have c: "available_voices initial_world = []"
    by (simp add: initial_world_def)
  note A = voice_picker_falls_back [of "available_voices with_default" with_default None]
  note B = voice_picker_falls_back [of "available_voices without_default" without_default None]
  note C = voice_picker_falls_back [of "[]" initial_world None]
  from A a have A': "map name (available_voices with_default)
       ! default_idx (map name (available_voices with_default)) = DEFAULT_VOICE"
    "voice_picker None with_default = Inr (with_default\<lparr>selected_voice := DEFAULT_VOICE\<rparr>)"
    by simp_all
  from B b have B': "default_idx (map name (available_voices without_default)) = 0"
    "voice_picker None without_default
       = Inr (without_default\<lparr>selected_voice := ustr ''en-GB-SoniaNeural''\<rparr>)"
    by simp_all
  from C c have C': "voice_picker None initial_world
       = Inr (report [st_warning (ustr ''No voices available'')] initial_world)"
    by simp
  from a(1) A' b(1) B' c C' show ?thesis
    by (intro conjI)
qed

lemma sonia_picked_eq:
  "sonia_picked
     = Inr ((initialize_voices (Inr [jenny, sonia]) initial_world)
              \<lparr>selected_voice := ustr ''en-GB-SoniaNeural''\<rparr>)"
proof -
  have av: "available_voices (initialize_voices (Inr [jenny, sonia]) initial_world)
     = [\<lparr>name = DEFAULT_VOICE, display = ustr ''en-US - en-US-JennyNeural''\<rparr>,
        \<lparr>name = ustr ''en-GB-SoniaNeural'', display = ustr ''en-GB - en-GB-SoniaNeural''\<rparr>]"
    by (simp add: initialize_voices_def get_available_voices_def
        sonia_def jenny_def initial_world_def DEFAULT_VOICE_def ustr_def)
  show ?thesis
    using voice_literals(3)
    by (simp add: sonia_picked_def voice_picker_def av Let_def selectbox_def default_idx_def)
qed

text \<open>
  C9 as stated fails in its last part. In a session whose user picked the second voice
  of the catalogue, a later run that cannot fetch the catalogue finds it empty, shows the
  warning, and the selected voice is still the one picked, not the hardcoded default id.
\<close>

theorem selected_voice_not_default_counterexample:
  "map_sum str available_voices catalogue_lost = Inr []
   \<and> map_sum str shown catalogue_lost
       = Inr [st_error (ustr ''Error getting voices: '' @ ustr ''Cannot connect to host''),
              st_warning (ustr ''No voices available'')]
   \<and> map_sum str selected_voice catalogue_lost = Inr (ustr ''en-GB-SoniaNeural'')
   \<and> map_sum str selected_voice catalogue_lost \<noteq> Inr DEFAULT_VOICE"
  using voice_literals(1)
  by (simp add: catalogue_lost_def sonia_picked_eq voice_picker_def initialize_voices_def
        get_available_voices_def report_def initial_world_def)

section \<open>The export\<close>

subsection \<open>Decimal fields\<close>

lemma length_fixed [simp]: "length (fixed w n) = w"
  by (induction w arbitrary: n) simp_all

lemma digits_fixed: "list_all digit (fixed w n)"
  by (induction w arbitrary: n) (simp_all add: digit_def)

lemma fixed_zero: "fixed w 0 = replicate w 48"
  by (induction w) (simp_all add: replicate_append_same)

lemma pad0_fixed_aux:
  "n < 10 ^ w \<Longrightarrow> 0 < w \<Longrightarrow> replicate (w - length (dec n)) 48 @ dec n = fixed w n"
proof (induction w arbitrary: n)
  case 0
  then show ?case by simp
next
  case (Suc w)
  show ?case
  proof (cases "n < 10")
    case True
    then show ?thesis
      by (simp add: dec.simps [of n] fixed_zero)
  next
    case False
    with Suc.prems have w: "0 < w" by (cases w) auto
    from Suc.prems have "n div 10 < 10 ^ w" by (simp add: less_mult_imp_div_less mult.commute)
    from Suc.IH [OF this w] False show ?thesis
      by (simp add: dec.simps [of n])
  qed
qed

lemma pad0_fixed: "n < 10 ^ w \<Longrightarrow> 0 < w \<Longrightarrow> pad0 w n = fixed w n"
  by (simp add: pad0_def pad0_fixed_aux)

lemma digits_value_append:
  "digits_value acc (xs @ ys)
     = (case digits_value acc xs of None \<Rightarrow> None | Some a \<Rightarrow> digits_value a ys)"
  by (induction xs arbitrary: acc) simp_all

lemma digits_value_fixed:
  "digits_value acc (fixed w n) = Some (acc * 10 ^ w + n mod 10 ^ w)"
proof (induction w arbitrary: n acc)
  case 0
  then show ?case by simp
next
  case (Suc w)
  have "n mod (10 * 10 ^ w) = 10 * (n div 10 mod 10 ^ w) + n mod 10"
    by (rule mod_mult2_eq)
  then show ?case
    by (simp add: digits_value_append Suc.IH digit_def algebra_simps)
qed

lemma digits_value_fixed_small:
  "n < 10 ^ w \<Longrightarrow> digits_value 0 (fixed w n) = Some n"
  by (simp add: digits_value_fixed)

subsection \<open>The two formats of the clock\<close>

lemma valid_datetime_pads:
  assumes "valid_datetime dt"
  shows "pad0 4 (year dt) = fixed 4 (year dt)" "pad0 2 (month dt) = fixed 2 (month dt)"
    "pad0 2 (day dt) = fixed 2 (day dt)" "pad0 2 (hour dt) = fixed 2 (hour dt)"
    "pad0 2 (minute dt) = fixed 2 (minute dt)" "pad0 2 (second dt) = fixed 2 (second dt)"
    "pad0 6 (microsecond dt) = fixed 6 (microsecond dt)"
  using assms by (simp_all add: valid_datetime_def pad0_fixed)

lemma isoformat_fixed:
  assumes "valid_datetime dt"
  shows "isoformat dt
           = fixed 4 (year dt) @ [45] @ fixed 2 (month dt) @ [45] @ fixed 2 (day dt) @ [84]
             @ fixed 2 (hour dt) @ [58] @ fixed 2 (minute dt) @ [58] @ fixed 2 (second dt)
             @ (if microsecond dt \<noteq> 0 then [46] @ fixed 6 (microsecond dt) else [])"
  by (simp add: isoformat_def valid_datetime_pads [OF assms] ustr_def)

lemma strftime_fixed:
  assumes "valid_datetime dt"
  shows "strftime dt
           = fixed 4 (year dt) @ fixed 2 (month dt) @ fixed 2 (day dt) @ [95]
             @ fixed 2 (hour dt) @ fixed 2 (minute dt) @ fixed 2 (second dt)"
  by (simp add: strftime_def valid_datetime_pads [OF assms] ustr_def)

lemma take_fixed_append: "take w (fixed w n @ rest) = fixed w n"
  by simp

lemma drop_fixed_append: "drop w (fixed w n @ rest) = rest"
  by simp

lemma nth_fixed_append: "(fixed w n @ c # rest) ! w = c"
  by (simp add: nth_append)

lemma drop_Suc_fixed_append: "drop (Suc w) (fixed w n @ c # rest) = rest"
  by simp

lemma parse_iso8601_layout:
  assumes "valid_datetime \<lparr>year = y, month = mo, day = d, hour = h, minute = mi,
                            second = sec, microsecond = us\<rparr>"
    and "fraction = [] \<and> us = 0 \<or> fraction = 46 # fixed 6 us"
  shows "parse_iso8601 (fixed 4 y @ 45 # fixed 2 mo @ 45 # fixed 2 d @ 84 # fixed 2 h
                        @ 58 # fixed 2 mi @ 58 # fixed 2 sec @ fraction)
           = Some \<lparr>year = y, month = mo, day = d, hour = h, minute = mi,
                    second = sec, microsecond = us\<rparr>"
proof -
  let ?s = "fixed 4 y @ 45 # fixed 2 mo @ 45 # fixed 2 d @ 84 # fixed 2 h
              @ 58 # fixed 2 mi @ 58 # fixed 2 sec @ fraction"
  let ?r5 = "fixed 2 mo @ 45 # fixed 2 d @ 84 # fixed 2 h @ 58 # fixed 2 mi @ 58 # fixed 2 sec @ fraction"
  let ?r8 = "fixed 2 d @ 84 # fixed 2 h @ 58 # fixed 2 mi @ 58 # fixed 2 sec @ fraction"
  let ?r11 = "fixed 2 h @ 58 # fixed 2 mi @ 58 # fixed 2 sec @ fraction"
  let ?r14 = "fixed 2 mi @ 58 # fixed 2 sec @ fraction"
  let ?r17 = "fixed 2 sec @ fraction"
  have b: "y < 10 ^ 4" "mo < 10 ^ 2" "d < 10 ^ 2" "h < 10 ^ 2" "mi < 10 ^ 2" "sec < 10 ^ 2"
    "us < 10 ^ 6"
    using assms(1) by (simp_all add: valid_datetime_def)
  have d5: "drop 5 ?s = ?r5"
    using drop_Suc_fixed_append [of 4 y 45 ?r5] by simp
  have d8: "drop 8 ?s = ?r8"
    using drop_Suc_fixed_append [of 2 mo 45 ?r8] arg_cong [OF d5, of "drop 3"] by simp
  have d11: "drop 11 ?s = ?r11"
    using drop_Suc_fixed_append [of 2 d 84 ?r11] arg_cong [OF d8, of "drop 3"] by simp
  have d14: "drop 14 ?s = ?r14"
    using drop_Suc_fixed_append [of 2 h 58 ?r14] arg_cong [OF d11, of "drop 3"] by simp
  have d17: "drop 17 ?s = ?r17"
    using drop_Suc_fixed_append [of 2 mi 58 ?r17] arg_cong [OF d14, of "drop 3"] by simp
  have d19: "drop 19 ?s = fraction"
    using arg_cong [OF d17, of "drop 2"] by simp
  have d20: "drop 20 ?s = drop 1 fraction"
    using arg_cong [OF d19, of "drop 1"] by simp
  have n4: "?s ! 4 = 45"
    by (rule nth_fixed_append)
  have n7: "?s ! 7 = 45"
    by (simp add: nth_append)
  have n10: "?s ! 10 = 84"
    by (simp add: nth_append)
  have n13: "?s ! 13 = 58"
    by (simp add: nth_append)
  have n16: "?s ! 16 = 58"
    by (simp add: nth_append)
  have len: "length ?s = 19 + length fraction"
    by simp
  have l: "length ?s = 19 \<or> (length ?s = 26 \<and> ?s ! 19 = 46)"
    using assms(2) len by (auto simp: nth_append)
  have us: "digits_value 0 (drop 1 fraction) = Some us"
    using assms(2) b(7) by (auto simp: digits_value_fixed_small)
  have t: "take 4 ?s = fixed 4 y" "take 2 ?r5 = fixed 2 mo" "take 2 ?r8 = fixed 2 d"
    "take 2 ?r11 = fixed 2 h" "take 2 ?r14 = fixed 2 mi" "take 2 ?r17 = fixed 2 sec"
    by (rule take_fixed_append)+
  show ?thesis
    unfolding parse_iso8601_def d5 d8 d11 d14 d17 d20 t
    using l n4 n7 n10 n13 n16 us b assms(1)
    by (simp add: digits_value_fixed_small del: fixed.simps)
qed

lemma parse_iso8601_isoformat:
  assumes "valid_datetime dt"
  shows "parse_iso8601 (isoformat dt) = Some dt"
proof -
  let ?dt = "\<lparr>year = year dt, month = month dt, day = day dt, hour = hour dt,
              minute = minute dt, second = second dt, microsecond = microsecond dt\<rparr>"
  let ?fr = "if microsecond dt = 0 then [] else 46 # fixed 6 (microsecond dt)"
  have e: "?dt = dt"
    by simp
  have v: "valid_datetime ?dt"
    using assms by (simp add: valid_datetime_def)
  have f: "?fr = [] \<and> microsecond dt = 0 \<or> ?fr = 46 # fixed 6 (microsecond dt)"
    by simp
  have i: "isoformat dt
             = fixed 4 (year dt) @ 45 # fixed 2 (month dt) @ 45 # fixed 2 (day dt)
               @ 84 # fixed 2 (hour dt) @ 58 # fixed 2 (minute dt)
               @ 58 # fixed 2 (second dt) @ ?fr"
    by (simp add: isoformat_fixed [OF assms] del: fixed.simps)
  have "parse_iso8601 (isoformat dt) = Some ?dt"
    unfolding i by (rule parse_iso8601_layout [OF v f])
  then show ?thesis
    unfolding e .
qed

subsection \<open>The document\<close>

lemma ascii_hexdigit: "d < 16 \<Longrightarrow> ascii (hexdigit d)"
  by (simp add: ascii_def hexdigit_def)

lemma ascii_hex4: "list_all ascii (hex4 n)"
  by (simp add: hex4_def ascii_hexdigit)

lemma ascii_escape: "list_all ascii (escape n)"
  by (simp add: escape_def Let_def ascii_hex4) (simp add: ascii_def)

lemma ascii_encode_basestring_ascii: "list_all ascii (encode_basestring_ascii s)"
proof -
  have "list_all ascii (concat (map escape s))"
    by (induction s) (simp_all add: ascii_escape)
  then show ?thesis
    by (simp add: encode_basestring_ascii_def ascii_def)
qed

lemma ascii_newline_indent: "list_all ascii (newline_indent indent level)"
  by (simp add: newline_indent_def ascii_def list_all_iff)

lemma ascii_join:
  "list_all ascii separator \<Longrightarrow> \<forall>chunk \<in> set chunks. list_all ascii chunk \<Longrightarrow>
     list_all ascii (join separator chunks)"
  by (induction separator chunks rule: join.induct) simp_all

lemma ascii_literals:
  "list_all ascii (ustr ''[]'')" "list_all ascii (ustr ''['')" "list_all ascii (ustr '']'')"
  "list_all ascii (ustr ''{}'')" "list_all ascii (ustr ''{'')" "list_all ascii (ustr ''}'')"
  "list_all ascii (ustr '','')" "list_all ascii (ustr '': '')"
  by (simp_all add: ustr_def ascii_def)

lemma ascii_iterencode: "list_all ascii (iterencode indent level v)"
proof (induction indent level v rule: iterencode.induct)
  case (1 indent level s)
  then show ?case by (simp add: ascii_encode_basestring_ascii)
next
  case (2 indent level lst)
  then show ?case
    by (auto simp: ascii_literals ascii_newline_indent intro!: ascii_join)
next
  case (3 indent level dct)
  then show ?case
    by (auto simp: ascii_literals ascii_newline_indent ascii_encode_basestring_ascii
             intro!: ascii_join)
qed

lemma plain_escape: "plain c \<Longrightarrow> escape c = [c]"
  by (simp add: plain_def escape_def)

lemma plain_encode_basestring_ascii:
  "list_all plain s \<Longrightarrow> encode_basestring_ascii s = quoted s"
proof -
  assume "list_all plain s"
  then have "concat (map escape s) = s"
    by (induction s) (simp_all add: plain_escape)
  then show ?thesis
    by (simp add: encode_basestring_ascii_def quoted_def)
qed

lemma plain_fixed: "list_all plain (fixed w n)"
  using digits_fixed [of w n] by (auto simp: list_all_iff digit_def plain_def)

lemma plain_isoformat: "valid_datetime dt \<Longrightarrow> list_all plain (isoformat dt)"
  by (simp add: isoformat_fixed plain_fixed del: fixed.simps) (simp add: plain_def)

lemma plain_keys:
  "list_all plain (ustr ''timestamp'')" "list_all plain (ustr ''messages'')"
  "list_all plain (ustr ''role'')" "list_all plain (ustr ''content'')"
  by (simp_all add: ustr_def plain_def)

lemma iterencode_message_dict: "iterencode 2 (Suc (Suc 0)) (message_dict m) = entry_text m"
  by (simp add: message_dict_def entry_text_def newline_indent_def
        plain_encode_basestring_ascii [OF plain_keys(3)]
        plain_encode_basestring_ascii [OF plain_keys(4)])
     (simp add: ustr_def eval_nat_numeral)

lemma download_chat_history_layout:
  assumes "valid_datetime now"
  shows "download_chat_history now s
           = ustr ''{'' @ 10 # ustr ''  '' @ quoted (ustr ''timestamp'') @ ustr '': ''
             @ quoted (isoformat now) @ ustr '','' @ 10 # ustr ''  ''
             @ quoted (ustr ''messages'') @ ustr '': '' @ messages_text (chat_history s)
             @ 10 # ustr ''}''"
proof -
  have m: "iterencode 2 (Suc 0) (PyList (map message_dict (chat_history s)))
             = messages_text (chat_history s)"
    by (simp add: messages_text_def newline_indent_def iterencode_message_dict comp_def)
       (simp add: ustr_def eval_nat_numeral)
  show ?thesis
    by (simp add: download_chat_history_def json_dumps_def history_data_def m
          plain_encode_basestring_ascii [OF plain_keys(1)]
          plain_encode_basestring_ascii [OF plain_keys(2)]
          plain_encode_basestring_ascii [OF plain_isoformat [OF assms]]
          newline_indent_def del: iterencode.simps(2))
       (simp add: ustr_def eval_nat_numeral)
qed

subsection \<open>Reading the document back\<close>

lemma hexval_hexdigit: "d < 16 \<Longrightarrow> hexval (hexdigit d) = Some d"
  by (auto simp: hexval_def hexdigit_def)

lemma hex_digits_sum:
  assumes "(n::nat) < 65536"
  shows "((n div 4096 mod 16 * 16 + n div 256 mod 16) * 16 + n div 16 mod 16) * 16 + n mod 16
           = n"
proof -
  define a b c d p q where "a = n div 4096 mod 16" and "b = n div 256 mod 16"
    and "c = n div 16 mod 16" and "d = n mod 16" and "p = n mod 256" and "q = n mod 4096"
  have 1: "p = 16 * c + d"
    using mod_mult2_eq [of n 16 16] by (simp add: p_def c_def d_def)
  have 2: "q = 256 * b + p"
    using mod_mult2_eq [of n 256 16] by (simp add: q_def b_def p_def)
  have 3: "n = 4096 * a + q"
    using mod_mult2_eq [of n 4096 16] assms by (simp add: a_def q_def)
  have "((a * 16 + b) * 16 + c) * 16 + d = n"
    unfolding 3 2 1 by simp
  then show ?thesis
    by (simp only: a_def b_def c_def d_def)
qed

lemma hex4_value_hex4: "n < 65536 \<Longrightarrow> hex4_value (hex4 n) = Some n"
  using hex_digits_sum [of n]
  by (simp add: hex4_value_def hex4_def hexval_hexdigit)

lemma length_hex4 [simp]: "length (hex4 n) = 4"
  by (simp add: hex4_def)

lemma take_hex4: "take 4 (hex4 n @ rest) = hex4 n" "drop 4 (hex4 n @ rest) = rest"
  by (simp_all add: hex4_def)

lemma read_chars_escape:
  assumes "scalar c"
  shows "read_chars acc (escape c @ rest) = read_chars (c # acc) rest"
proof -
  consider (quote) "c = 34" | (backslash) "c = 92" | (plain) "32 \<le> c" "c \<le> 126" "c \<noteq> 34" "c \<noteq> 92"
    | (short) "c = 8 \<or> c = 12 \<or> c = 10 \<or> c = 13 \<or> c = 9"
    | (bmp) "c < 65536" "\<not> (32 \<le> c \<and> c \<le> 126)" "c \<noteq> 8" "c \<noteq> 12" "c \<noteq> 10" "c \<noteq> 13" "c \<noteq> 9"
    | (astral) "65536 \<le> c"
    by linarith
  then show ?thesis
  proof cases
    case quote
    then show ?thesis
      by (simp add: escape_def read_chars.simps simple_escape_def)
  next
    case backslash
    then show ?thesis
      by (simp add: escape_def read_chars.simps simple_escape_def)
  next
    case plain
    then show ?thesis
      by (simp add: escape_def read_chars.simps)
  next
    case short
    then show ?thesis
      by (auto simp: escape_def read_chars.simps simple_escape_def)
  next
    case bmp
    have h: "\<not> high_surrogate c"
      using assms by (auto simp: scalar_def high_surrogate_def)
    from bmp have e: "escape c = 92 # 117 # hex4 c"
      by (auto simp: escape_def)
    show ?thesis
      unfolding e
      by (simp add: read_chars.simps [of acc] take_hex4 hex4_value_hex4 bmp(1) h)
  next
    case astral
    let ?v = "c - 65536"
    let ?s1 = "55296 + ?v div 1024 mod 1024"
    let ?s2 = "56320 + ?v mod 1024"
    from assms astral have v: "?v < 1048576"
      by (simp add: scalar_def)
    have e: "escape c = 92 # 117 # hex4 ?s1 @ 92 # 117 # hex4 ?s2"
      using astral by (simp add: escape_def Let_def)
    have s: "?s1 < 65536" "?s2 < 65536" "high_surrogate ?s1" "low_surrogate ?s2"
      by (simp_all add: high_surrogate_def low_surrogate_def)
    from v have "?v div 1024 < 1024"
      by (simp add: less_mult_imp_div_less)
    then have m: "?v div 1024 mod 1024 = ?v div 1024"
      by simp
    have "?v div 1024 * 1024 + ?v mod 1024 = ?v"
      by (rule div_mult_mod_eq)
    with astral have c: "65536 + ?v div 1024 mod 1024 * 1024 + ?v mod 1024 = c"
      unfolding m by simp
    have d: "drop 10 (hex4 ?s1 @ 92 # 117 # hex4 ?s2 @ rest) = rest"
      "take 2 (drop 4 (hex4 ?s1 @ 92 # 117 # hex4 ?s2 @ rest)) = [92, 117]"
      "take 4 (drop 6 (hex4 ?s1 @ 92 # 117 # hex4 ?s2 @ rest)) = hex4 ?s2"
      by (simp_all add: hex4_def)
    show ?thesis
      unfolding e
      by (simp add: read_chars.simps [of acc] take_hex4 hex4_value_hex4 s d c)
  qed
qed

lemma read_chars_string:
  "list_all scalar s \<Longrightarrow>
     read_chars acc (concat (map escape s) @ 34 # rest) = Some (rev acc @ s, rest)"
  by (induction s arbitrary: acc) (simp_all add: read_chars_escape read_chars.simps)

lemma not_whitespace [simp]:
  "\<not> whitespace 34" "\<not> whitespace 91" "\<not> whitespace 93" "\<not> whitespace 123"
  "\<not> whitespace 125" "\<not> whitespace 44" "\<not> whitespace 58"
  by (simp_all add: whitespace_def)

lemma skip_ws_Cons: "\<not> whitespace c \<Longrightarrow> skip_ws (c # r) = c # r"
  by (simp add: skip_ws_def)

lemma skip_ws_append: "list_all whitespace ws \<Longrightarrow> skip_ws (ws @ s) = skip_ws s"
  by (simp add: skip_ws_def list_all_iff dropWhile_append2)

lemma whitespace_newline_indent: "list_all whitespace (newline_indent indent level)"
  by (simp add: newline_indent_def whitespace_def list_all_iff)

lemma read_value_skip: "list_all whitespace ws \<Longrightarrow> read_value n (ws @ s) = read_value n s"
  by (cases n) (simp_all add: skip_ws_append)

lemma read_members_skip:
  "list_all whitespace ws \<Longrightarrow> read_members n acc (ws @ s) = read_members n acc s"
  by (cases n) (simp_all add: skip_ws_append)

lemma read_chars_encode:
  "list_all scalar s \<Longrightarrow>
     read_chars [] (tl (encode_basestring_ascii s) @ rest) = Some (s, rest)"
  using read_chars_string [of s "[]" rest] by (simp add: encode_basestring_ascii_def)

lemma encode_basestring_ascii_Cons:
  "encode_basestring_ascii s = 34 # tl (encode_basestring_ascii s)"
  by (simp add: encode_basestring_ascii_def)

lemma iterencode_first:
  "\<exists>c t. iterencode indent level v = c # t \<and> (c = 34 \<or> c = 91 \<or> c = 123)"
proof (cases v)
  case (PyStr s)
  then show ?thesis by (simp add: encode_basestring_ascii_def)
next
  case (PyList lst)
  then show ?thesis by (cases "lst = []") (simp_all add: ustr_def)
next
  case (PyDict dct)
  then show ?thesis by (cases "dct = []") (simp_all add: ustr_def)
qed

lemma read_elements_join:
  fixes enc :: "pyval \<Rightarrow> pystr"
  assumes "\<And>v n rest. v \<in> set vs \<Longrightarrow> length (enc v) \<le> n
              \<Longrightarrow> read_value n (enc v @ rest) = Some (v, rest)"
    and "\<And>v. v \<in> set vs \<Longrightarrow> enc v \<noteq> []"
    and "vs \<noteq> []"
    and "length (join (44 # inner) (map enc vs)) < m"
    and "list_all whitespace inner" and "list_all whitespace outer"
  shows "read_elements m acc (inner @ join (44 # inner) (map enc vs) @ outer @ 93 # rest)
           = Some (rev acc @ vs, rest)"
  using assms
proof (induction vs arbitrary: acc m)
  case Nil
  then show ?case by simp
next
  case (Cons v vs)
  from Cons.prems(4) obtain k where m: "m = Suc k"
    by (cases m) auto
  have v: "enc v \<noteq> []"
    using Cons.prems(2) by simp
  show ?case
  proof (cases "vs = []")
    case True
    with Cons.prems(4) m have "length (enc v) \<le> k"
      by simp
    then have "read_value k (enc v @ outer @ 93 # rest) = Some (v, outer @ 93 # rest)"
      using Cons.prems(1) by simp
    then show ?thesis
      by (simp add: m True read_value_skip Cons.prems(5) skip_ws_append Cons.prems(6)
            skip_ws_Cons)
  next
    case False
    then obtain v' vs' where vs: "vs = v' # vs'"
      by (cases vs) auto
    let ?j = "join (44 # inner) (map enc vs)"
    have j: "join (44 # inner) (map enc (v # vs)) = enc v @ 44 # inner @ ?j"
      by (simp add: vs)
    from Cons.prems(4) m v have l: "length (enc v) \<le> k" "length ?j < k"
      unfolding j by (cases "enc v"; simp)+
    have "read_value k (enc v @ 44 # inner @ ?j @ outer @ 93 # rest)
            = Some (v, 44 # inner @ ?j @ outer @ 93 # rest)"
      using Cons.prems(1) l(1) by simp
    moreover have "read_elements k (v # acc) (inner @ ?j @ outer @ 93 # rest)
                     = Some (rev (v # acc) @ vs, rest)"
      using Cons.prems(1,2,5,6) False l(2) by (intro Cons.IH) auto
    ultimately show ?thesis
      unfolding j by (simp add: m read_value_skip Cons.prems(5) skip_ws_Cons)
  qed
qed

lemma read_member_step:
  assumes "list_all scalar key" and "read_value k (text @ rest) = Some (v, rest)"
  shows "read_members (Suc k) acc (encode_basestring_ascii key @ 58 # 32 # text @ rest)
           = (case skip_ws rest of
                [] \<Rightarrow> None
              | d # r \<Rightarrow>
                  if d = 44 then read_members k ((key, v) # acc) r
                  else if d = 125 then Some (rev ((key, v) # acc), r)
                  else None)"
proof -
  have w: "list_all whitespace [32]"
    by (simp add: whitespace_def)
  have "read_value k (32 # text @ rest) = Some (v, rest)"
    using read_value_skip [OF w, of k "text @ rest"] assms(2) by simp
  moreover have "read_chars [] (tl (encode_basestring_ascii key) @ 58 # 32 # text @ rest)
                   = Some (key, 58 # 32 # text @ rest)"
    using assms(1) by (rule read_chars_encode)
  ultimately show ?thesis
    by (subst encode_basestring_ascii_Cons) (simp add: skip_ws_Cons)
qed

lemma read_members_join:
  fixes enc :: "pyval \<Rightarrow> pystr"
  assumes "\<And>p n rest. p \<in> set ms \<Longrightarrow> length (enc (snd p)) \<le> n
              \<Longrightarrow> read_value n (enc (snd p) @ rest) = Some (snd p, rest)"
    and "\<And>p. p \<in> set ms \<Longrightarrow> list_all scalar (fst p)"
    and "ms \<noteq> []"
    and "length (join (44 # inner)
           (map (\<lambda>p. encode_basestring_ascii (fst p) @ 58 # 32 # enc (snd p)) ms)) < m"
    and "list_all whitespace inner" and "list_all whitespace outer"
  shows "read_members m acc
           (inner @ join (44 # inner)
                   (map (\<lambda>p. encode_basestring_ascii (fst p) @ 58 # 32 # enc (snd p)) ms)
               @ outer @ 125 # rest)
           = Some (rev acc @ ms, rest)"
  using assms
proof (induction ms arbitrary: acc m)
  case Nil
  then show ?case by simp
next
  case (Cons p ms)
  let ?item = "\<lambda>p. encode_basestring_ascii (fst p) @ 58 # 32 # enc (snd p)"
  from Cons.prems(4) obtain k where m: "m = Suc k"
    by (cases m) auto
  have key: "list_all scalar (fst p)"
    using Cons.prems(2) by simp
  have p: "(fst p, snd p) = p"
    by simp
  show ?case
  proof (cases "ms = []")
    case True
    with Cons.prems(4) m have "length (enc (snd p)) \<le> k"
      by simp
    then have "read_value k (enc (snd p) @ outer @ 125 # rest) = Some (snd p, outer @ 125 # rest)"
      using Cons.prems(1) by simp
    from read_member_step [OF key this, of acc] show ?thesis
      by (simp add: m True read_members_skip Cons.prems(5) skip_ws_append Cons.prems(6)
            skip_ws_Cons)
  next
    case False
    then obtain p' ms' where ms: "ms = p' # ms'"
      by (cases ms) auto
    let ?j = "join (44 # inner) (map ?item ms)"
    have j: "join (44 # inner) (map ?item (p # ms)) = ?item p @ 44 # inner @ ?j"
      by (simp add: ms)
    from Cons.prems(4) m have l: "length (enc (snd p)) \<le> k" "length ?j < k"
      unfolding j by simp_all
    have "read_value k (enc (snd p) @ 44 # inner @ ?j @ outer @ 125 # rest)
            = Some (snd p, 44 # inner @ ?j @ outer @ 125 # rest)"
      using Cons.prems(1) l(1) by simp
    from read_member_step [OF key this, of acc]
    have 1: "read_members (Suc k) acc (?item p @ 44 # inner @ ?j @ outer @ 125 # rest)
               = read_members k (p # acc) (inner @ ?j @ outer @ 125 # rest)"
      by (simp add: skip_ws_Cons)
    have 2: "read_members k (p # acc) (inner @ ?j @ outer @ 125 # rest)
               = Some (rev (p # acc) @ ms, rest)"
      using Cons.prems(1,2,5,6) False l(2) by (intro Cons.IH) auto
    show ?thesis
      unfolding j m using 1 2 read_members_skip [OF Cons.prems(5)]
      by (simp del: read_members.simps)
  qed
qed

lemma join_first:
  assumes "chunks \<noteq> []" and "hd chunks = c # t"
  shows "\<exists>t'. join separator chunks = c # t'"
proof (cases chunks)
  case Nil
  with assms show ?thesis by simp
next
  case (Cons x xs)
  with assms show ?thesis by (cases xs) simp_all
qed

lemma length_iterencode_pos: "0 < length (iterencode indent level v)"
  using iterencode_first [of indent level v] by auto

lemma read_value_iterencode:
  "unicode v \<Longrightarrow> length (iterencode indent level v) \<le> n \<Longrightarrow>
     read_value n (iterencode indent level v @ rest) = Some (v, rest)"
proof (induction indent level v arbitrary: n rest rule: iterencode.induct)
  case (1 indent level s)
  from "1.prems"(2) length_iterencode_pos [of indent level "PyStr s"]
  obtain k where n: "n = Suc k"
    by (cases n) auto
  have "read_chars [] (tl (encode_basestring_ascii s) @ rest) = Some (s, rest)"
    using "1.prems"(1) by (simp add: read_chars_encode)
  then show ?case
    unfolding n iterencode.simps
    by (subst encode_basestring_ascii_Cons) (simp add: skip_ws_Cons)
next
  case (2 indent level lst)
  from "2.prems"(2) length_iterencode_pos [of indent level "PyList lst"]
  obtain k where n: "n = Suc k"
    by (cases n) auto
  show ?case
  proof (cases "lst = []")
    case True
    then show ?thesis
      by (simp add: n ustr_def skip_ws_Cons)
  next
    case False
    let ?inn = "newline_indent indent (Suc level)"
    let ?out = "newline_indent indent level"
    let ?enc = "iterencode indent (Suc level)"
    let ?j = "join (44 # ?inn) (map ?enc lst)"
    have t: "iterencode indent level (PyList lst) = 91 # ?inn @ ?j @ ?out @ [93]"
      using False by (simp add: ustr_def)
    obtain c t where c: "?enc (hd lst) = c # t" "c = 34 \<or> c = 91 \<or> c = 123"
      using iterencode_first [of indent "Suc level" "hd lst"] by auto
    from False c(1) obtain t' where j: "?j = c # t'"
      using join_first [of "map ?enc lst" c t "44 # ?inn"] by (auto simp: hd_map)
    have nw: "\<not> whitespace c" "c \<noteq> 93"
      using c(2) by auto
    have s: "skip_ws (?inn @ ?j @ ?out @ 93 # rest) = c # t' @ ?out @ 93 # rest"
      by (simp add: skip_ws_append whitespace_newline_indent j skip_ws_Cons nw)
    have l: "length ?j < k"
      using "2.prems"(2) unfolding t n by (simp add: newline_indent_def)
    have u: "\<And>v. v \<in> set lst \<Longrightarrow> unicode v"
      using "2.prems"(1) by (simp add: list_all_iff)
    have e: "read_elements k [] (?inn @ ?j @ ?out @ 93 # rest) = Some (rev [] @ lst, rest)"
    proof (rule read_elements_join [where inner = ?inn and outer = ?out])
      show "\<And>v n rest. v \<in> set lst \<Longrightarrow> length (?enc v) \<le> n
              \<Longrightarrow> read_value n (?enc v @ rest) = Some (v, rest)"
        using "2.IH" [OF False] u by blast
      show "\<And>v. v \<in> set lst \<Longrightarrow> ?enc v \<noteq> []"
        using length_iterencode_pos by fastforce
    qed (use False l in \<open>simp_all add: whitespace_newline_indent\<close>)
    show ?thesis
      unfolding t n using s e nw(2) by (simp add: skip_ws_Cons)
  qed
next
  case (3 indent level dct)
  from "3.prems"(2) length_iterencode_pos [of indent level "PyDict dct"]
  obtain k where n: "n = Suc k"
    by (cases n) auto
  show ?case
  proof (cases "dct = []")
    case True
    then show ?thesis
      by (simp add: n ustr_def skip_ws_Cons)
  next
    case False
    let ?inn = "newline_indent indent (Suc level)"
    let ?out = "newline_indent indent level"
    let ?enc = "iterencode indent (Suc level)"
    let ?item = "\<lambda>p. encode_basestring_ascii (fst p) @ 58 # 32 # ?enc (snd p)"
    let ?j = "join (44 # ?inn) (map ?item dct)"
    have t: "iterencode indent level (PyDict dct) = 123 # ?inn @ ?j @ ?out @ [125]"
      using False by (simp add: ustr_def)
    have "?item (hd dct) = 34 # tl (?item (hd dct))"
      by (simp add: encode_basestring_ascii_def)
    with False obtain t' where j: "?j = 34 # t'"
      using join_first [of "map ?item dct" 34 "tl (?item (hd dct))" "44 # ?inn"]
      by (auto simp: hd_map)
    have s: "skip_ws (?inn @ ?j @ ?out @ 125 # rest) = 34 # t' @ ?out @ 125 # rest"
      by (simp add: skip_ws_append whitespace_newline_indent j skip_ws_Cons)
    have l: "length ?j < k"
      using "3.prems"(2) unfolding t n by (simp add: newline_indent_def)
    have u: "\<And>p. p \<in> set dct \<Longrightarrow> unicode (snd p)"
      "\<And>p. p \<in> set dct \<Longrightarrow> list_all scalar (fst p)"
      using "3.prems"(1) by (simp_all add: list_all_iff)
    have e: "read_members k [] (?inn @ ?j @ ?out @ 125 # rest) = Some (rev [] @ dct, rest)"
    proof (rule read_members_join [where inner = ?inn and outer = ?out])
      show "\<And>p n rest. p \<in> set dct \<Longrightarrow> length (?enc (snd p)) \<le> n
              \<Longrightarrow> read_value n (?enc (snd p) @ rest) = Some (snd p, rest)"
        using "3.IH" [OF False] u(1) by blast
    qed (use False l u(2) in \<open>simp_all add: whitespace_newline_indent\<close>)
    show ?thesis
      unfolding t n using s e by (simp add: skip_ws_Cons)
  qed
qed

lemma json_loads_json_dumps: "unicode v \<Longrightarrow> json_loads (json_dumps v indent) = Some v"
  using read_value_iterencode [of v indent 0 "length (iterencode indent 0 v)" "[]"]
  by (simp add: json_loads_def json_dumps_def skip_ws_def)

lemma scalar_plain: "plain c \<Longrightarrow> scalar c"
  by (simp add: plain_def scalar_def)

lemma scalar_literals:
  "list_all scalar (ustr ''timestamp'')" "list_all scalar (ustr ''messages'')"
  "list_all scalar (ustr ''role'')" "list_all scalar (ustr ''content'')"
  by (simp_all add: ustr_def scalar_def)

lemma scalar_isoformat: "valid_datetime dt \<Longrightarrow> list_all scalar (isoformat dt)"
  using plain_isoformat [of dt] by (auto simp: list_all_iff scalar_plain)

lemma unicode_history_data:
  "valid_datetime now \<Longrightarrow> unicode_turns (chat_history s) \<Longrightarrow> unicode (history_data now s)"
  using scalar_literals scalar_isoformat [of now]
  by (auto simp: history_data_def message_dict_def unicode_turns_def list_all_iff)

lemma message_key_literals: "ustr ''role'' \<noteq> ustr ''content''"
  by (simp add: ustr_def)

lemma read_message_dict: "read_message (message_dict m) = Some m"
  using message_key_literals by (simp add: read_message_def message_dict_def)

lemma read_all_message_dicts: "read_all (map message_dict h) = Some h"
  by (induction h) (simp_all add: read_message_dict)

lemma key_literals: "ustr ''timestamp'' \<noteq> ustr ''messages''"
  by (simp add: ustr_def)

lemma read_messages_history_data: "read_messages (history_data now s) = Some (chat_history s)"
  using key_literals by (simp add: read_messages_def history_data_def read_all_message_dicts)

lemma read_timestamp_history_data:
  "valid_datetime now \<Longrightarrow> read_timestamp (history_data now s) = Some now"
  by (simp add: read_timestamp_def history_data_def parse_iso8601_isoformat)

lemma json_loads_download_chat_history:
  assumes "valid_datetime now" and "unicode_turns (chat_history s)"
  shows "json_loads (download_chat_history now s) = Some (history_data now s)"
  unfolding download_chat_history_def
  using unicode_history_data [OF assms] by (rule json_loads_json_dumps)

text \<open>
  C6. For a history of \<open>N\<close> turns, \<^verbatim>\<open>history_data\<close> has exactly the two fields
  \<^verbatim>\<open>timestamp\<close> and \<^verbatim>\<open>messages\<close>; the first is the ISO 8601 text of the clock, which
  reads back as the same date and time, and the second is the list of the \<open>N\<close> turns in
  the order of the history, each with its role and its content. The document is that
  value written by \<^verbatim>\<open>json.dumps\<close> with an indent of two: one field on each line, one
  line for each key of each turn, all in ASCII, so that its UTF-8 encoding is the text
  itself. The document is JSON: when the roles and contents are Unicode text, a reader of
  JSON reads it back as exactly that value, and from the value read come the time of the
  export and the \<open>N\<close> turns, the same and in the same order. The download button offers
  the document under the name \<^verbatim>\<open>chat_history_\<close>, eight digits, an underscore, six
  digits and \<^verbatim>\<open>.json\<close>, with the MIME type of JSON. The two readings of the clock are
  \<^verbatim>\<open>datetime\<close> values, the second of a year from 1000 on.
\<close>

theorem export_document:
  assumes "valid_datetime now" and "valid_datetime now'" and "1000 \<le> year now'"
  shows "dict_keys (history_data now s) = [ustr ''timestamp'', ustr ''messages'']
       \<and> dict_get (history_data now s) (ustr ''timestamp'') = Some (PyStr (isoformat now))
       \<and> parse_iso8601 (isoformat now) = Some now
       \<and> dict_get (history_data now s) (ustr ''messages'')
           = Some (PyList (map message_dict (chat_history s)))
       \<and> length (map message_dict (chat_history s)) = length (chat_history s)
       \<and> (\<forall>i < length (chat_history s).
             map message_dict (chat_history s) ! i
               = PyDict [(ustr ''role'', PyStr (role (chat_history s ! i))),
                         (ustr ''content'', PyStr (content (chat_history s ! i)))])
       \<and> download_chat_history now s = json_dumps (history_data now s) 2
       \<and> download_chat_history now s
           = ustr ''{'' @ 10 # ustr ''  '' @ quoted (ustr ''timestamp'') @ ustr '': ''
             @ quoted (isoformat now) @ ustr '','' @ 10 # ustr ''  ''
             @ quoted (ustr ''messages'') @ ustr '': '' @ messages_text (chat_history s)
             @ 10 # ustr ''}''
       \<and> list_all ascii (download_chat_history now s)
       \<and> (unicode_turns (chat_history s) \<longrightarrow>
             json_loads (download_chat_history now s) = Some (history_data now s)
             \<and> Option.bind (json_loads (download_chat_history now s)) read_timestamp
                 = Some now
             \<and> Option.bind (json_loads (download_chat_history now s)) read_messages
                 = Some (chat_history s)
             \<and> map_option length
                   (Option.bind (json_loads (download_chat_history now s)) read_messages)
                 = Some (length (chat_history s)))
       \<and> download_section True now now' s
           = Some \<lparr>label = ustr ''Download JSON'',
                    data = download_chat_history now s,
                    file_name = ustr ''chat_history_''
                      @ (fixed 4 (year now') @ fixed 2 (month now') @ fixed 2 (day now'))
                      @ ustr ''_''
                      @ (fixed 2 (hour now') @ fixed 2 (minute now') @ fixed 2 (second now'))
                      @ ustr ''.json'',
                    mime = ustr ''application/json''\<rparr>
       \<and> length (fixed 4 (year now') @ fixed 2 (month now') @ fixed 2 (day now')) = 8
       \<and> list_all digit (fixed 4 (year now') @ fixed 2 (month now') @ fixed 2 (day now'))
       \<and> length (fixed 2 (hour now') @ fixed 2 (minute now') @ fixed 2 (second now')) = 6
       \<and> list_all digit (fixed 2 (hour now') @ fixed 2 (minute now') @ fixed 2 (second now'))"
proof -
  have 1: "dict_keys (history_data now s) = [ustr ''timestamp'', ustr ''messages'']"
    by (simp add: history_data_def)
  have 2: "dict_get (history_data now s) (ustr ''timestamp'') = Some (PyStr (isoformat now))"
    by (simp add: history_data_def)
  have 3: "parse_iso8601 (isoformat now) = Some now"
    using assms(1) by (rule parse_iso8601_isoformat)
  have 4: "dict_get (history_data now s) (ustr ''messages'')
           = Some (PyList (map message_dict (chat_history s)))"
    using key_literals by (simp add: history_data_def)
  have 5: "length (map message_dict (chat_history s)) = length (chat_history s)"
    by simp
  have 6: "\<forall>i < length (chat_history s).
             map message_dict (chat_history s) ! i
               = PyDict [(ustr ''role'', PyStr (role (chat_history s ! i))),
                         (ustr ''content'', PyStr (content (chat_history s ! i)))]"
    by (simp add: message_dict_def)
  have 7: "download_chat_history now s = json_dumps (history_data now s) 2"
    by (simp add: download_chat_history_def)
  note 8 = download_chat_history_layout [OF assms(1), of s]
  have 9: "list_all ascii (download_chat_history now s)"
    by (simp add: download_chat_history_def json_dumps_def ascii_iterencode)
  have 13: "json_loads (download_chat_history now s) = Some (history_data now s)
             \<and> Option.bind (json_loads (download_chat_history now s)) read_timestamp
                 = Some now
             \<and> Option.bind (json_loads (download_chat_history now s)) read_messages
                 = Some (chat_history s)
             \<and> map_option length
                   (Option.bind (json_loads (download_chat_history now s)) read_messages)
                 = Some (length (chat_history s))"
    if "unicode_turns (chat_history s)"
    using json_loads_download_chat_history [OF assms(1) that]
      read_timestamp_history_data [OF assms(1), of s] read_messages_history_data [of now s]
    by simp
  have 10: "download_section True now now' s
           = Some \<lparr>label = ustr ''Download JSON'',
                    data = download_chat_history now s,
                    file_name = ustr ''chat_history_''
                      @ (fixed 4 (year now') @ fixed 2 (month now') @ fixed 2 (day now'))
                      @ ustr ''_''
                      @ (fixed 2 (hour now') @ fixed 2 (minute now') @ fixed 2 (second now'))
                      @ ustr ''.json'',
                    mime = ustr ''application/json''\<rparr>"
    by (simp add: download_section_def strftime_fixed [OF assms(2)] ustr_def
          del: fixed.simps)
  have 11: "length (fixed 4 (year now') @ fixed 2 (month now') @ fixed 2 (day now')) = 8"
    "length (fixed 2 (hour now') @ fixed 2 (minute now') @ fixed 2 (second now')) = 6"
    by simp_all
  have 12: "list_all digit (fixed 4 (year now') @ fixed 2 (month now') @ fixed 2 (day now'))"
    "list_all digit (fixed 2 (hour now') @ fixed 2 (minute now') @ fixed 2 (second now'))"
    by (simp_all add: digits_fixed del: fixed.simps)
  from 13 have 14: "unicode_turns (chat_history s) \<longrightarrow>
             json_loads (download_chat_history now s) = Some (history_data now s)
             \<and> Option.bind (json_loads (download_chat_history now s)) read_timestamp
                 = Some now
             \<and> Option.bind (json_loads (download_chat_history now s)) read_messages
                 = Some (chat_history s)
             \<and> map_option length
                   (Option.bind (json_loads (download_chat_history now s)) read_messages)
                 = Some (length (chat_history s))"
    by blast
  from 1 2 3 4 5 6 7 8 9 14 10 11 12 show ?thesis
    by (intro conjI)
qed

lemma valid_clock: "valid_datetime morning" "valid_datetime midnight"
  by (simp_all add: valid_datetime_def morning_def midnight_def)

lemma midnight_stamp:
  "fixed 4 (year midnight) @ fixed 2 (month midnight) @ fixed 2 (day midnight) = ustr ''20251231''"
  "fixed 2 (hour midnight) @ fixed 2 (minute midnight) @ fixed 2 (second midnight) = ustr ''000000''"
  by code_simp+

lemma morning_isoformat: "isoformat morning = ustr ''2024-03-09T07:05:00.000120''"
  by code_simp

lemma quoting_turns_text: "unicode_turns (chat_history quoting_turns)"
  by (simp add: quoting_turns_def unicode_turns_def user_turn_def assistant_turn_def
        scalar_def ustr_def)

lemma quoting_turns_escaped:
  "encode_basestring_ascii [115, 97, 121, 32, 34, 104, 105, 34, 10, 92]
     = [34, 115, 97, 121, 32, 92, 34, 104, 105, 92, 34, 92, 110, 92, 92, 34]"
  "encode_basestring_ascii [233, 32, 128512]
     = [34, 92, 117, 48, 48, 101, 57, 32, 92, 117, 100, 56, 51, 100,
        92, 117, 100, 101, 48, 48, 34]"
  by (simp_all add: encode_basestring_ascii_def escape_def hex4_def hexdigit_def Let_def)


theorem export_document_witness:
  "valid_datetime morning \<and> valid_datetime midnight \<and> 1000 \<le> year midnight
   \<and> unicode_turns (chat_history quoting_turns)
   \<and> dict_keys (history_data morning quoting_turns) = [ustr ''timestamp'', ustr ''messages'']
   \<and> parse_iso8601 (ustr ''2024-03-09T07:05:00.000120'') = Some morning
   \<and> list_all ascii (download_chat_history morning quoting_turns)
   \<and> json_loads (download_chat_history morning quoting_turns)
       = Some (history_data morning quoting_turns)
   \<and> Option.bind (json_loads (download_chat_history morning quoting_turns)) read_messages
       = Some (chat_history quoting_turns)
   \<and> download_section True morning midnight quoting_turns
       = Some \<lparr>label = ustr ''Download JSON'',
                data = download_chat_history morning quoting_turns,
                file_name = ustr ''chat_history_'' @ ustr ''20251231'' @ ustr ''_''
                              @ ustr ''000000'' @ ustr ''.json'',
                mime = ustr ''application/json''\<rparr>"
proof -
  have y: "1000 \<le> year midnight"
    by (simp add: midnight_def)
  note e = export_document [OF valid_clock y, of quoting_turns]
  from e have "dict_keys (history_data morning quoting_turns)
                 = [ustr ''timestamp'', ustr ''messages'']"
    by (rule conjunct1)
  moreover from e have "parse_iso8601 (isoformat morning) = Some morning"
    by (elim conjE)
  then have "parse_iso8601 (ustr ''2024-03-09T07:05:00.000120'') = Some morning"
    unfolding morning_isoformat .
  moreover from e have "list_all ascii (download_chat_history morning quoting_turns)"
    by (elim conjE)
  moreover from e have "unicode_turns (chat_history quoting_turns) \<longrightarrow>
             json_loads (download_chat_history morning quoting_turns)
               = Some (history_data morning quoting_turns)
             \<and> Option.bind (json_loads (download_chat_history morning quoting_turns))
                   read_timestamp = Some morning
             \<and> Option.bind (json_loads (download_chat_history morning quoting_turns))
                   read_messages = Some (chat_history quoting_turns)
             \<and> map_option length
                   (Option.bind (json_loads (download_chat_history morning quoting_turns))
                      read_messages)
                 = Some (length (chat_history quoting_turns))"
    by (elim conjE)
  with quoting_turns_text
  have "json_loads (download_chat_history morning quoting_turns)
          = Some (history_data morning quoting_turns)"
    "Option.bind (json_loads (download_chat_history morning quoting_turns)) read_messages
          = Some (chat_history quoting_turns)"
    by blast+
  moreover from e have "download_section True morning midnight quoting_turns
           = Some \<lparr>label = ustr ''Download JSON'',
                    data = download_chat_history morning quoting_turns,
                    file_name = ustr ''chat_history_''
                      @ (fixed 4 (year midnight) @ fixed 2 (month midnight)
                         @ fixed 2 (day midnight))
                      @ ustr ''_''
                      @ (fixed 2 (hour midnight) @ fixed 2 (minute midnight)
                         @ fixed 2 (second midnight))
                      @ ustr ''.json'',
                    mime = ustr ''application/json''\<rparr>"
    by (elim conjE)
  then have "download_section True morning midnight quoting_turns
       = Some \<lparr>label = ustr ''Download JSON'',
                data = download_chat_history morning quoting_turns,
                file_name = ustr ''chat_history_'' @ ustr ''20251231'' @ ustr ''_''
                              @ ustr ''000000'' @ ustr ''.json'',
                mime = ustr ''application/json''\<rparr>"
    unfolding midnight_stamp .
  ultimately show ?thesis
    using valid_clock y quoting_turns_text by (intro conjI)
qed


end
